theory Spec2Isabelle
  imports Main "HOL-Library.Sublist"
begin

section \<open>Python values, exceptions and dictionaries\<close>

text \<open>
  The exceptions that the modelled code raises or lets through. \<^verbatim>\<open>JSONDecodeError\<close> is
  the one exception of \<^verbatim>\<open>json.loads\<close> that the code catches; \<^verbatim>\<open>json.loads\<close> can also
  raise \<^verbatim>\<open>ValueError\<close> (an integer with too many digits) and \<^verbatim>\<open>RecursionError\<close>. The
  last three are the families of \<^verbatim>\<open>retry_errors\<close> (llm.py, lines 53-63):
  \<^verbatim>\<open>aiohttp.ClientError\<close>, \<^verbatim>\<open>openai.OpenAIError\<close> and \<^verbatim>\<open>anthropic.AnthropicError\<close>.
\<close>

datatype py_error =
    RuntimeError | ValueError | TypeError | IndexError | UnicodeDecodeError
  | JSONDecodeError | RecursionError
  | Base64Error | NotFoundError
  | ClientError | OpenAIError | AnthropicError

text \<open>
  The values \<^verbatim>\<open>json.loads\<close> returns: \<^verbatim>\<open>None\<close>, booleans, integers, strings, lists and
  dictionaries. A dictionary is the list of its items in insertion order. A Python
  \<^verbatim>\<open>str\<close> is a \<^typ>\<open>string\<close>, one \<^typ>\<open>char\<close> per code point. JSON numbers with a fraction
  or an exponent (Python floats) are outside this development.
\<close>

datatype pyval =
    PNone
  | PBool bool
  | PInt int
  | PStr string
  | PList "pyval list"
  | PDict "(pyval \<times> pyval) list"

type_synonym pydict = "(pyval \<times> pyval) list"

text \<open>Truth value of an object, as \<^verbatim>\<open>if delta:\<close> and \<^verbatim>\<open>partial_data or None\<close> test it.\<close>

fun truthy :: "pyval \<Rightarrow> bool" where
  "truthy PNone = False"
| "truthy (PBool b) = b"
| "truthy (PInt n) = (n \<noteq> 0)"
| "truthy (PStr s) = (s \<noteq> [])"
| "truthy (PList xs) = (xs \<noteq> [])"
| "truthy (PDict d) = (d \<noteq> [])"

text \<open>Lists and dictionaries are unhashable: they cannot be dictionary keys.\<close>

fun hashable :: "pyval \<Rightarrow> bool" where
  "hashable (PList xs) = False"
| "hashable (PDict d) = False"
| "hashable v = True"

text \<open>Key equality: \<^verbatim>\<open>True == 1\<close> and \<^verbatim>\<open>False == 0\<close>, with equal hashes.\<close>

fun norm_key :: "pyval \<Rightarrow> pyval" where
  "norm_key (PBool b) = PInt (if b then 1 else 0)"
| "norm_key v = v"

definition py_eq :: "pyval \<Rightarrow> pyval \<Rightarrow> bool" where
  "py_eq a b = (norm_key a = norm_key b)"

text \<open>
  \<^verbatim>\<open>d[k] = v\<close>: an existing key keeps its place (and its key object) and gets the new
  value; a new key goes to the end.
\<close>

fun dict_setitem :: "pydict \<Rightarrow> pyval \<Rightarrow> pyval \<Rightarrow> pydict" where
  "dict_setitem [] k v = [(k, v)]"
| "dict_setitem ((k', v') # d) k v =
     (if py_eq k' k then (k', v) # d else (k', v') # dict_setitem d k v)"

text \<open>\<^verbatim>\<open>k in d\<close> and \<^verbatim>\<open>d[k]\<close>: \<^term>\<open>None\<close> is the missing key.\<close>

fun dict_get :: "pydict \<Rightarrow> pyval \<Rightarrow> pyval option" where
  "dict_get [] k = None"
| "dict_get ((k', v') # d) k = (if py_eq k' k then Some v' else dict_get d k)"

text \<open>Merging the items of another dictionary, in its order, later values winning.\<close>

fun dict_merge :: "pydict \<Rightarrow> pydict \<Rightarrow> pydict" where
  "dict_merge d [] = d"
| "dict_merge d ((k, v) # items) = dict_merge (dict_setitem d k v) items"

text \<open>
  \<^verbatim>\<open>data |= other\<close> on a dictionary is \<^verbatim>\<open>dict.update\<close>: another dictionary is merged;
  anything else is iterated as a sequence of key/value pairs. An element that is not
  iterable is a \<^verbatim>\<open>TypeError\<close>, one whose length is not 2 a \<^verbatim>\<open>ValueError\<close>, an
  unhashable key a \<^verbatim>\<open>TypeError\<close>. Iterating a string gives its characters, iterating
  a dictionary its keys.
\<close>

fun pair_of :: "pyval \<Rightarrow> py_error + (pyval \<times> pyval)" where
  "pair_of (PList [k, v]) = Inr (k, v)"
| "pair_of (PList xs) = Inl ValueError"
| "pair_of (PStr [a, b]) = Inr (PStr [a], PStr [b])"
| "pair_of (PStr s) = Inl ValueError"
| "pair_of (PDict [(k1, v1), (k2, v2)]) = Inr (k1, k2)"
| "pair_of (PDict d) = Inl ValueError"
| "pair_of v = Inl TypeError"

fun merge_from_seq2 :: "pydict \<Rightarrow> pyval list \<Rightarrow> py_error + pydict" where
  "merge_from_seq2 d [] = Inr d"
| "merge_from_seq2 d (x # xs) =
     (case pair_of x of
        Inl e \<Rightarrow> Inl e
      | Inr (k, v) \<Rightarrow>
          if hashable k then merge_from_seq2 (dict_setitem d k v) xs else Inl TypeError)"

fun dict_ior :: "pydict \<Rightarrow> pyval \<Rightarrow> py_error + pydict" where
  "dict_ior d (PDict items) = Inr (dict_merge d items)"
| "dict_ior d (PList xs) = merge_from_seq2 d xs"
| "dict_ior d (PStr s) = merge_from_seq2 d (map (\<lambda>c. PStr [c]) s)"
| "dict_ior d v = Inl TypeError"

text \<open>\<^verbatim>\<open>needle in haystack\<close> on strings; \<^verbatim>\<open>s.startswith(p)\<close> is \<^term>\<open>prefix p s\<close>.\<close>

fun str_contains :: "string \<Rightarrow> string \<Rightarrow> bool" where
  "str_contains needle [] = (needle = [])"
| "str_contains needle (c # cs) = (prefix needle (c # cs) \<or> str_contains needle cs)"

text \<open>\<^verbatim>\<open>sep.join(parts)\<close>.\<close>

fun join :: "string \<Rightarrow> string list \<Rightarrow> string" where
  "join sep [] = []"
| "join sep [x] = x"
| "join sep (x # y # ys) = x @ sep @ join sep (y # ys)"


section \<open>Prompt elements (utils/prompt_context.py)\<close>

datatype QuoteStyle = BACKTICKS | XML

datatype role = User | System | Assistant

text \<open>The three element classes deriving from \<^verbatim>\<open>PromptElementBase\<close>.\<close>

datatype PromptElementBase =
    RoleElement role
  | TextElement string "role option"
  | ContextElement string string

text \<open>\<^verbatim>\<open>PromptElement = Union[RoleElement, TextElement, ContextElement, str]\<close>.\<close>

datatype PromptElement = Elem PromptElementBase | Str string

text \<open>
  \<^verbatim>\<open>as_string\<close> of each class. \<^verbatim>\<open>ContextElement(value, heading)\<close> renders its heading and
  its value between backtick fences or XML tags.
\<close>

fun as_string :: "PromptElementBase \<Rightarrow> QuoteStyle \<Rightarrow> py_error + string" where
  "as_string (RoleElement r) q = Inl RuntimeError"
| "as_string (TextElement t r) q = Inr t"
| "as_string (ContextElement v h) BACKTICKS =
     Inr (h @ '':\<newline>```\<newline>'' @ v @ ''\<newline>```'')"
| "as_string (ContextElement v h) XML =
     Inr (''<'' @ h @ ''>\<newline>'' @ v @ ''\<newline></'' @ h @ ''>'')"


section \<open>Message assembly (Prompt.build_messages)\<close>

record message =
  role :: role
  content :: string

record ModelConfig =
  model :: string
  max_prompt_tokens :: int

datatype message_config = ConfigStr string | ConfigList "PromptElement list"

text \<open>
  The three variables the loop and \<^verbatim>\<open>deposit_messages\<close> share: \<^verbatim>\<open>messages\<close>,
  \<^verbatim>\<open>current_role\<close> and \<^verbatim>\<open>current_message_elements\<close>.
\<close>

record build_state =
  messages :: "message list"
  current_role :: role
  current_message_elements :: "string list"

definition deposit_messages :: "role \<Rightarrow> build_state \<Rightarrow> build_state" where
  "deposit_messages new_role st =
     \<lparr>messages =
        (if current_message_elements st \<noteq> []
         then messages st @
              [\<lparr>role = current_role st,
                content = join ''\<newline>\<newline>'' (current_message_elements st)\<rparr>]
         else messages st),
      current_role = new_role,
      current_message_elements = []\<rparr>"

text \<open>
  One pass of the loop body (lines 249-261). A \<^verbatim>\<open>RoleElement\<close> deposits and
  \<^verbatim>\<open>continue\<close>s. A \<^verbatim>\<open>TextElement\<close> with a role deposits first. Then a \<^verbatim>\<open>str\<close> is taken
  as it is and every other element is rendered by its \<^verbatim>\<open>as_string\<close>, whose exception
  leaves the function.
\<close>

fun build_step :: "QuoteStyle \<Rightarrow> PromptElement \<Rightarrow> build_state \<Rightarrow> py_error + build_state" where
  "build_step q (Elem (RoleElement r)) st = Inr (deposit_messages r st)"
| "build_step q prompt_element st =
     (let st1 = (case prompt_element of
                   Elem (TextElement t (Some r)) \<Rightarrow> deposit_messages r st
                 | _ \<Rightarrow> st)
      in case (case prompt_element of
                 Str s \<Rightarrow> Inr s
               | Elem e \<Rightarrow> as_string e q) of
           Inl err \<Rightarrow> Inl err
         | Inr as_str \<Rightarrow>
             Inr (st1\<lparr>current_message_elements := current_message_elements st1 @ [as_str]\<rparr>))"

fun build_loop :: "QuoteStyle \<Rightarrow> PromptElement list \<Rightarrow> build_state \<Rightarrow> py_error + build_state" where
  "build_loop q [] st = Inr st"
| "build_loop q (e # es) st =
     (case build_step q e st of
        Inl err \<Rightarrow> Inl err
      | Inr st' \<Rightarrow> build_loop q es st')"

definition resolve_quote_style :: "ModelConfig \<Rightarrow> QuoteStyle option \<Rightarrow> QuoteStyle" where
  "resolve_quote_style model_config quote_style =
     (case quote_style of
        Some q \<Rightarrow> q
      | None \<Rightarrow> if str_contains ''claude'' (model model_config) then XML else BACKTICKS)"

text \<open>Lines 262-268: what is left in the buffer after the loop becomes the last message.\<close>

definition final_messages :: "build_state \<Rightarrow> message list" where
  "final_messages st =
     (if current_message_elements st \<noteq> []
      then messages st @
           [\<lparr>role = current_role st,
             content = join ''\<newline>\<newline>'' (current_message_elements st)\<rparr>]
      else messages st)"

text \<open>
  Lines 214-268: the message list before the token budget is looked at.
\<close>

definition assemble_messages ::
  "message_config \<Rightarrow> ModelConfig \<Rightarrow> QuoteStyle option \<Rightarrow> py_error + message list" where
  "assemble_messages message_config model_config quote_style =
     (let q = resolve_quote_style model_config quote_style;
          st0 = \<lparr>messages = [], current_role = User, current_message_elements = []\<rparr>
      in case message_config of
           ConfigStr s \<Rightarrow> Inr (messages st0 @ [\<lparr>role = User, content = s\<rparr>])
         | ConfigList es \<Rightarrow>
             (case build_loop q es st0 of
                Inl err \<Rightarrow> Inl err
              | Inr st \<Rightarrow> Inr (final_messages st)))"

text \<open>
  Lines 270-296: the token budget. \<^verbatim>\<open>litellm.token_counter\<close> and
  \<^verbatim>\<open>litellm.utils.trim_messages\<close> belong to litellm and are parameters here; a trimmer
  that returns \<^verbatim>\<open>None\<close> makes the function raise \<^verbatim>\<open>ValueError\<close>.
\<close>

definition build_messages ::
  "(string \<Rightarrow> message list \<Rightarrow> int) \<Rightarrow> (message list \<Rightarrow> int \<Rightarrow> string \<Rightarrow> message list option) \<Rightarrow>
   message_config \<Rightarrow> ModelConfig \<Rightarrow> QuoteStyle option \<Rightarrow> py_error + message list" where
  "build_messages token_counter trim_messages message_config model_config quote_style =
     (case assemble_messages message_config model_config quote_style of
        Inl err \<Rightarrow> Inl err
      | Inr msgs \<Rightarrow>
          if token_counter (model model_config) msgs > max_prompt_tokens model_config
          then (case trim_messages msgs (max_prompt_tokens model_config) (model model_config) of
                  None \<Rightarrow> Inl ValueError
                | Some trimmed_messages \<Rightarrow> Inr trimmed_messages)
          else Inr msgs)"


section \<open>Provider dispatch (Prompt.invoke_llm)\<close>

datatype provider = Anthropic | Ollama | LiteLLM

text \<open>
  Lines 523-538: which adapter produces the stream. \<^verbatim>\<open>invoke_llm\<close> then hands the
  adapter's events on unchanged.
\<close>

definition select_provider :: "string \<Rightarrow> bool \<Rightarrow> provider" where
  "select_provider model_id schema_given =
     (if prefix ''claude'' model_id \<and> \<not> schema_given then Anthropic
      else if prefix ''ollama/'' model_id \<and> \<not> schema_given then Ollama
      else LiteLLM)"


section \<open>The generic adapter (Prompt._invoke_litellm)\<close>

text \<open>
  The keyword arguments built in lines 445-471. A key that is not set is \<^term>\<open>None\<close>.
  \<^verbatim>\<open>schema.model_dump(exclude_unset=True)\<close> belongs to pydantic and is the parameter
  \<open>model_dump\<close>.
\<close>

record 'js json_schema_format =
  fmt_type :: string
  fmt_name :: string
  fmt_schema :: 'js
  fmt_strict :: bool

record 'js function_tool =
  tool_type :: string
  function_name :: string
  function_parameters :: 'js

record 'js kwargs =
  response_format :: "'js json_schema_format option"
  tool_choice :: "string option"
  tools :: "'js function_tool list option"

definition use_tool_calling :: "string \<Rightarrow> bool" where
  "use_tool_calling model_id = (\<not> str_contains ''gpt'' model_id)"

definition schema_kwargs :: "('s \<Rightarrow> 'js) \<Rightarrow> string \<Rightarrow> 's option \<Rightarrow> 'js kwargs" where
  "schema_kwargs model_dump model_id schema =
     (case schema of
        None \<Rightarrow> \<lparr>response_format = None, tool_choice = None, tools = None\<rparr>
      | Some sch \<Rightarrow>
          (let json_schema = model_dump sch
           in if \<not> use_tool_calling model_id
              then \<lparr>response_format =
                      Some \<lparr>fmt_type = ''json_schema'', fmt_name = ''function'',
                            fmt_schema = json_schema, fmt_strict = True\<rparr>,
                    tool_choice = None, tools = None\<rparr>
              else \<lparr>response_format = None,
                    tool_choice = Some ''required'',
                    tools = Some [\<lparr>tool_type = ''function'', function_name = ''function'',
                                  function_parameters = json_schema\<rparr>]\<rparr>))"

text \<open>
  A streamed chunk: \<^verbatim>\<open>completion.choices[0].delta\<close> has a \<^verbatim>\<open>content\<close> and a
  \<^verbatim>\<open>tool_calls\<close>, either of which may be \<^verbatim>\<open>None\<close>; a tool call has an \<^verbatim>\<open>index\<close> and
  \<^verbatim>\<open>function.arguments\<close>.
\<close>

datatype tool_call = ToolCall (tc_index: int) (tc_arguments: "string option")

datatype delta = Delta (delta_content: "string option") (delta_tool_calls: "tool_call list option")

datatype ModelResponse = ModelResponse (choices: "delta list")

text \<open>How a generator stops: its source ran out, it left its loop, or an exception left it.\<close>

datatype stream_end = Exhausted | Break | Raised py_error

text \<open>
  Lines 474-510: the loop over the stream of \<^verbatim>\<open>litellm.acompletion\<close>, given as the
  chunks it delivers and the exception that ends it, if one does. The result is the
  list of yielded \<^verbatim>\<open>(delta_string, tool_index)\<close> and the way the generator stopped.
  Indexing an empty list raises \<^verbatim>\<open>IndexError\<close>.
\<close>

fun invoke_litellm_loop ::
  "bool \<Rightarrow> bool \<Rightarrow> int option \<Rightarrow> ModelResponse list \<Rightarrow> py_error option \<Rightarrow>
   (string \<times> int option) list \<times> stream_end" where
  "invoke_litellm_loop schema_given utc tool_index [] src_end =
     ([], case src_end of None \<Rightarrow> Exhausted | Some e \<Rightarrow> Raised e)"
| "invoke_litellm_loop schema_given utc tool_index (completion # rest) src_end =
     (case choices completion of
        [] \<Rightarrow> ([], Raised IndexError)
      | delta_obj # _ \<Rightarrow>
          (case (if schema_given \<and> utc
                 then (case delta_tool_calls delta_obj of
                         Some tcs \<Rightarrow>
                           (case tcs of
                              [] \<Rightarrow> Inl IndexError
                            | tool_call # _ \<Rightarrow>
                                Inr (Some (tc_index tool_call), tc_arguments tool_call))
                       | None \<Rightarrow> Inr (tool_index, None))
                 else Inr (tool_index, delta_content delta_obj)) of
             Inl e \<Rightarrow> ([], Raised e)
           | Inr (tool_index', None) \<Rightarrow> ([], Break)
           | Inr (tool_index', Some delta_string) \<Rightarrow>
               (let (evs, fin) = invoke_litellm_loop schema_given utc tool_index' rest src_end
                in ((delta_string, tool_index') # evs, fin))))"

definition invoke_litellm ::
  "string \<Rightarrow> bool \<Rightarrow> ModelResponse list \<Rightarrow> py_error option \<Rightarrow>
   (string \<times> int option) list \<times> stream_end" where
  "invoke_litellm model_id schema_given stream src_end =
     invoke_litellm_loop schema_given (use_tool_calling model_id) None stream src_end"


section \<open>The Ollama adapter (Prompt._invoke_ollama)\<close>

text \<open>
  Lines 391-407. \<^verbatim>\<open>json.loads\<close> is the parameter \<open>loads\<close>, which returns a value or
  raises. Only its \<^verbatim>\<open>JSONDecodeError\<close> is caught; any other exception leaves the
  function. Falling off the end of the function returns \<^verbatim>\<open>None\<close>.
\<close>

definition process_completion ::
  "(string \<Rightarrow> py_error + pyval) \<Rightarrow> string \<Rightarrow> py_error + pyval option" where
  "process_completion loads completion =
     (if completion = [] then Inr None
      else case loads completion of
             Inl e \<Rightarrow> if e = JSONDecodeError then Inr None else Inl e
           | Inr data \<Rightarrow>
               (case data of
                  PDict d \<Rightarrow>
                    (case dict_get d (PStr ''message'') of
                       None \<Rightarrow> Inr None
                     | Some (PDict m) \<Rightarrow>
                         (case dict_get m (PStr ''content'') of
                            None \<Rightarrow> Inr None
                          | Some delta \<Rightarrow> if truthy delta then Inr (Some delta) else Inr None)
                     | Some _ \<Rightarrow> Inr None)
                | _ \<Rightarrow> Inr None))"

lemma drain_lines_decreases:
  "c \<in> set buffer \<Longrightarrow> length (tl (dropWhile (\<lambda>x. x \<noteq> c) buffer)) < length buffer"
  by (induction buffer) (auto simp: less_Suc_eq_le intro: le_trans [OF length_dropWhile_le])

text \<open>
  Lines 421-425: while the buffer holds a newline, \<^verbatim>\<open>buffer.split("\n", 1)\<close> cuts the
  first line off and the line is processed. The result is the yielded events and either
  the buffer that is left or the exception that left the loop.
\<close>

function drain_lines ::
  "(string \<Rightarrow> py_error + pyval) \<Rightarrow> string \<Rightarrow> (pyval \<times> int option) list \<times> (py_error + string)" where
  "drain_lines loads buffer =
     (if CHR ''\<newline>'' \<in> set buffer
      then (let line = takeWhile (\<lambda>x. x \<noteq> CHR ''\<newline>'') buffer;
                buffer' = tl (dropWhile (\<lambda>x. x \<noteq> CHR ''\<newline>'') buffer)
            in (case process_completion loads line of
                  Inl e \<Rightarrow> ([], Inl e)
                | Inr None \<Rightarrow> drain_lines loads buffer'
                | Inr (Some completion) \<Rightarrow>
                    (let rest = drain_lines loads buffer'
                     in ((completion, None) # fst rest, snd rest))))
      else ([], Inr buffer))"
  by pat_completeness auto
termination
  by (relation "measure (\<lambda>(loads, buffer). length buffer)")
    (auto simp del: length_tl simp: drain_lines_decreases)

declare drain_lines.simps [simp del]

text \<open>
  Lines 418-429: the loop over the chunks of the response body, each decoded and added
  to the buffer, and the last partial line after the body has ended. \<^verbatim>\<open>bytes.decode\<close>
  is the parameter \<open>decode\<close>. The body is the list of its chunks and the exception
  that ends it, if one does.
\<close>

fun invoke_ollama_loop ::
  "(string \<Rightarrow> py_error + string) \<Rightarrow> (string \<Rightarrow> py_error + pyval) \<Rightarrow> string \<Rightarrow> string list \<Rightarrow>
   py_error option \<Rightarrow> (pyval \<times> int option) list \<times> stream_end" where
  "invoke_ollama_loop decode loads buffer [] src_end =
     (case src_end of
        Some e \<Rightarrow> ([], Raised e)
      | None \<Rightarrow>
          (if buffer \<noteq> []
           then (case process_completion loads buffer of
                   Inl e \<Rightarrow> ([], Raised e)
                 | Inr None \<Rightarrow> ([], Exhausted)
                 | Inr (Some completion) \<Rightarrow> ([(completion, None)], Exhausted))
           else ([], Exhausted)))"
| "invoke_ollama_loop decode loads buffer (completion # chunks) src_end =
     (case decode completion of
        Inl e \<Rightarrow> ([], Raised e)
      | Inr text \<Rightarrow>
          (let drained = drain_lines loads (buffer @ text)
           in case snd drained of
                Inl e \<Rightarrow> (fst drained, Raised e)
              | Inr buffer' \<Rightarrow>
                  (let later = invoke_ollama_loop decode loads buffer' chunks src_end
                   in (fst drained @ fst later, snd later))))"

definition invoke_ollama ::
  "(string \<Rightarrow> py_error + string) \<Rightarrow> (string \<Rightarrow> py_error + pyval) \<Rightarrow> string list \<Rightarrow>
   py_error option \<Rightarrow> (pyval \<times> int option) list \<times> stream_end" where
  "invoke_ollama decode loads chunks src_end = invoke_ollama_loop decode loads [] chunks src_end"


section \<open>Accumulating the stream (Prompt.iterate_invoke_llm)\<close>

text \<open>
  The generator's variables \<^verbatim>\<open>output\<close>, \<^verbatim>\<open>tool_responses\<close> and \<^verbatim>\<open>partial_data\<close>, which
  are also the snapshot it yields. \<^verbatim>\<open>tool_responses\<close> is a
  \<^verbatim>\<open>defaultdict(str)\<close>: the list of its items in insertion order, a missing key reading
  as the empty string.
\<close>

record acc_state =
  acc_output :: string
  acc_tool_responses :: "(int \<times> string) list"
  acc_partial_data :: pydict

fun tool_get :: "(int \<times> string) list \<Rightarrow> int \<Rightarrow> string" where
  "tool_get [] i = []"
| "tool_get ((j, b) # rest) i = (if j = i then b else tool_get rest i)"

text \<open>\<^verbatim>\<open>tool_responses[tool_index] += partial_output\<close>.\<close>

fun tool_append :: "(int \<times> string) list \<Rightarrow> int \<Rightarrow> string \<Rightarrow> (int \<times> string) list" where
  "tool_append [] i s = [(i, [] @ s)]"
| "tool_append ((j, b) # rest) i s =
     (if j = i then (j, b @ s) # rest else (j, b) # tool_append rest i s)"

text \<open>
  Lines 615-622, the body of the loop for one event. Only \<^verbatim>\<open>JSONDecodeError\<close> is
  caught; any other exception of \<^verbatim>\<open>json.loads\<close> and an exception of
  \<^verbatim>\<open>partial_data |= loaded_output\<close> leave the generator.
\<close>

definition accumulate_step ::
  "(string \<Rightarrow> py_error + pyval) \<Rightarrow> acc_state \<Rightarrow> string \<times> int option \<Rightarrow> py_error + acc_state" where
  "accumulate_step loads st ev =
     (case ev of (partial_output, tool_index) \<Rightarrow>
        (let st1 = st\<lparr>acc_output := acc_output st @ partial_output\<rparr>
         in case tool_index of
              None \<Rightarrow> Inr st1
            | Some i \<Rightarrow>
                (let st2 = st1\<lparr>acc_tool_responses :=
                                  tool_append (acc_tool_responses st1) i partial_output\<rparr>
                 in case loads (tool_get (acc_tool_responses st2) i) of
                      Inl e \<Rightarrow> if e = JSONDecodeError then Inr st2 else Inl e
                    | Inr loaded_output \<Rightarrow>
                        (case dict_ior (acc_partial_data st2) loaded_output of
                           Inl e \<Rightarrow> Inl e
                         | Inr pd \<Rightarrow> Inr (st2\<lparr>acc_partial_data := pd\<rparr>)))))"

text \<open>
  The loop: one snapshot is yielded after every event. The stream of \<^verbatim>\<open>invoke_llm\<close> is
  the list of its events and the exception that ends it, if one does.
\<close>

fun accumulate_loop ::
  "(string \<Rightarrow> py_error + pyval) \<Rightarrow> acc_state \<Rightarrow> (string \<times> int option) list \<Rightarrow>
   py_error option \<Rightarrow> acc_state list \<times> py_error option" where
  "accumulate_loop loads st [] src_end = ([], src_end)"
| "accumulate_loop loads st (ev # evs) src_end =
     (case accumulate_step loads st ev of
        Inl e \<Rightarrow> ([], Some e)
      | Inr st' \<Rightarrow>
          (let later = accumulate_loop loads st' evs src_end
           in (st' # fst later, snd later)))"

definition iterate_invoke_llm ::
  "(string \<Rightarrow> py_error + pyval) \<Rightarrow> (string \<times> int option) list \<Rightarrow> py_error option \<Rightarrow>
   acc_state list \<times> py_error option" where
  "iterate_invoke_llm loads events src_end =
     accumulate_loop loads \<lparr>acc_output = [], acc_tool_responses = [], acc_partial_data = []\<rparr>
       events src_end"


section \<open>Structured output (Prompt.parse_structured_response)\<close>

text \<open>
  Lines 574-581: the loop over the buffers inside one \<^verbatim>\<open>try\<close>. \<^term>\<open>Inr None\<close> is the
  caught \<^verbatim>\<open>JSONDecodeError\<close>, which ends the loop; \<^term>\<open>Inl e\<close> is an exception that is not
  caught, of \<^verbatim>\<open>json.loads\<close> or of \<^verbatim>\<open>|=\<close>.
\<close>

fun merge_tool_responses ::
  "(string \<Rightarrow> py_error + pyval) \<Rightarrow> pydict \<Rightarrow> string list \<Rightarrow> py_error + pydict option" where
  "merge_tool_responses loads data [] = Inr (Some data)"
| "merge_tool_responses loads data (tool_response # rest) =
     (case loads tool_response of
        Inl e \<Rightarrow> if e = JSONDecodeError then Inr None else Inl e
      | Inr v \<Rightarrow>
          (case dict_ior data v of
             Inl e \<Rightarrow> Inl e
           | Inr data' \<Rightarrow> merge_tool_responses loads data' rest))"

text \<open>
  The function returns \<^verbatim>\<open>None\<close>, here \<^term>\<open>PNone\<close>, for every failure it catches.
  \<^verbatim>\<open>construct_model_from_schema\<close> and pydantic's \<^verbatim>\<open>model_validate\<close> are parameters:
  \<^term>\<open>None\<close> is a schema with no model, \<^term>\<open>False\<close> a \<^verbatim>\<open>ValidationError\<close>.
\<close>

definition parse_structured_response ::
  "(string \<Rightarrow> py_error + pyval) \<Rightarrow> ('s \<Rightarrow> 'm option) \<Rightarrow> ('m \<Rightarrow> pyval \<Rightarrow> bool) \<Rightarrow>
   (int \<times> string) list \<Rightarrow> string \<Rightarrow> 's \<Rightarrow> py_error + pyval" where
  "parse_structured_response loads construct_model_from_schema model_validate
     tool_responses output schema =
     (case (if tool_responses \<noteq> []
            then (case merge_tool_responses loads [] (map snd tool_responses) of
                    Inl e \<Rightarrow> Inl e
                  | Inr None \<Rightarrow> Inr None
                  | Inr (Some d) \<Rightarrow> Inr (Some (PDict d)))
            else (case loads output of
                    Inl e \<Rightarrow> if e = JSONDecodeError then Inr None else Inl e
                  | Inr v \<Rightarrow> Inr (Some v))) of
        Inl e \<Rightarrow> Inl e
      | Inr None \<Rightarrow> Inr PNone
      | Inr (Some data) \<Rightarrow>
          (case construct_model_from_schema schema of
             None \<Rightarrow> Inr PNone
           | Some m \<Rightarrow> if model_validate m data then Inr data else Inr PNone))"


section \<open>The retry loop and the final output (Prompt.run)\<close>

record Outputs =
  result :: string
  response :: string
  data :: "pyval option"

definition retry_errors :: "bool \<Rightarrow> py_error list" where
  "retry_errors anthropic_installed =
     [ClientError, OpenAIError] @ (if anthropic_installed then [AnthropicError] else [])"

text \<open>Lines 669-673: \<^verbatim>\<open>Outputs(result=output, response=output, data=partial_data or None)\<close>.\<close>

definition emit :: "acc_state \<Rightarrow> Outputs" where
  "emit st =
     \<lparr>result = acc_output st, response = acc_output st,
      data = (if truthy (PDict (acc_partial_data st))
              then Some (PDict (acc_partial_data st)) else None)\<rparr>"

text \<open>
  The result of a loop that may go on: it is done, an exception left it, or the attempts
  given to the model are used up and the loop would start another one.
\<close>

datatype 'a outcome = Done 'a | Failed py_error | Retrying

text \<open>
  Lines 647-673. The state is the pair of \<^verbatim>\<open>run\<close>'s own variables \<^verbatim>\<open>output\<close> and
  \<^verbatim>\<open>tool_responses\<close>, assigned by the \<^verbatim>\<open>async for\<close> at every snapshot and by nothing
  else. An attempt is the stream \<^verbatim>\<open>invoke_llm\<close> delivers in it. tenacity starts another
  attempt when the exception is one of \<open>retry_errs\<close> and re-raises it otherwise; there
  is no bound on the number of attempts. The result is the list of yielded outputs and
  the variables after the loop.
\<close>

fun retry_loop ::
  "(string \<Rightarrow> py_error + pyval) \<Rightarrow> py_error list \<Rightarrow> string \<times> (int \<times> string) list \<Rightarrow>
   ((string \<times> int option) list \<times> py_error option) list \<Rightarrow>
   Outputs list \<times> (string \<times> (int \<times> string) list) outcome" where
  "retry_loop loads retry_errs vars [] = ([], Retrying)"
| "retry_loop loads retry_errs vars (attempt # attempts) =
     (let snaps = iterate_invoke_llm loads (fst attempt) (snd attempt);
          vars' = (if fst snaps = [] then vars
                   else (acc_output (last (fst snaps)), acc_tool_responses (last (fst snaps))))
      in case snd snaps of
           None \<Rightarrow> (map emit (fst snaps), Done vars')
         | Some e \<Rightarrow>
             if e \<in> set retry_errs
             then (let later = retry_loop loads retry_errs vars' attempts
                   in (map emit (fst snaps) @ fst later, snd later))
             else (map emit (fst snaps), Failed e))"

text \<open>
  Lines 647-706. \<^verbatim>\<open>estimate_cost\<close> is a parameter; its \<^verbatim>\<open>NotFoundError\<close> is caught and
  every other exception leaves \<^verbatim>\<open>run\<close>.
\<close>

definition run ::
  "(string \<Rightarrow> py_error + pyval) \<Rightarrow> ('s \<Rightarrow> 'm option) \<Rightarrow> ('m \<Rightarrow> pyval \<Rightarrow> bool) \<Rightarrow> py_error list \<Rightarrow>
   (string \<Rightarrow> py_error + 'c) \<Rightarrow> 's option \<Rightarrow>
   ((string \<times> int option) list \<times> py_error option) list \<Rightarrow> Outputs list \<times> unit outcome" where
  "run loads construct_model_from_schema model_validate retry_errs estimate_cost
     output_schema attempts =
     (let looped = retry_loop loads retry_errs ([], []) attempts
      in case snd looped of
           Retrying \<Rightarrow> (fst looped, Retrying)
         | Failed e \<Rightarrow> (fst looped, Failed e)
         | Done (output, tool_responses) \<Rightarrow>
             (case (case estimate_cost output of
                      Inl e \<Rightarrow> if e = NotFoundError then None else Some e
                    | Inr c \<Rightarrow> None) of
                Some e \<Rightarrow> (fst looped, Failed e)
              | None \<Rightarrow>
                  (case output_schema of
                     None \<Rightarrow> (fst looped, Done ())
                   | Some schema \<Rightarrow>
                       (case parse_structured_response loads construct_model_from_schema
                               model_validate tool_responses output schema of
                          Inl e \<Rightarrow> (fst looped, Failed e)
                        | Inr parsed \<Rightarrow>
                            if parsed = PNone then (fst looped, Failed RuntimeError)
                            else (fst looped @
                                    [\<lparr>result = output, response = output, data = Some parsed\<rparr>],
                                  Done ())))))"


section \<open>Credentials in the process environment (PromptEnvContext)\<close>

record PromptEnvContext =
  anthropic_env_var_bak :: "string option"
  gcp_env_var_bak :: "string option"
  "file" :: "string option"

type_synonym environ = "string \<rightharpoonup> string"

text \<open>Lines 72-76 and 110: the singleton as \<^verbatim>\<open>__init__\<close> leaves it.\<close>

definition new_context :: PromptEnvContext where
  "new_context = \<lparr>anthropic_env_var_bak = None, gcp_env_var_bak = None, file = None\<rparr>"

text \<open>
  Lines 78-93. \<^verbatim>\<open>get_secret\<close> is a parameter, as are the decoding of the credentials
  (\<^verbatim>\<open>base64.b64decode(...).decode("ascii")\<close>, which can raise) and the name of the
  temporary file. The result is the context and the environment as \<^verbatim>\<open>enter\<close> leaves
  them, and the exception that left it, if one did.
\<close>

definition enter ::
  "(string \<Rightarrow> string option) \<Rightarrow> (string \<Rightarrow> py_error + string) \<Rightarrow> string \<Rightarrow>
   PromptEnvContext \<times> environ \<Rightarrow> (PromptEnvContext \<times> environ) \<times> py_error option" where
  "enter get_secret b64decode_ascii tmp_name w =
     (case w of (self, env) \<Rightarrow>
        (let w1 = (case get_secret ''ANTHROPIC_API_KEY'' of
                     None \<Rightarrow> (self, env)
                   | Some anthropic_api_key \<Rightarrow>
                       (self\<lparr>anthropic_env_var_bak := env ''ANTHROPIC_API_KEY''\<rparr>,
                        env(''ANTHROPIC_API_KEY'' \<mapsto> anthropic_api_key)))
         in case get_secret ''GCP_CREDENTIALS_64'' of
              None \<Rightarrow> (w1, None)
            | Some base64_encoded_credentials \<Rightarrow>
                (case b64decode_ascii base64_encoded_credentials of
                   Inl e \<Rightarrow> (w1, Some e)
                 | Inr credentials_string \<Rightarrow>
                     (((fst w1)\<lparr>file := Some tmp_name,
                               gcp_env_var_bak := (snd w1) ''GOOGLE_APPLICATION_CREDENTIALS''\<rparr>,
                       (snd w1)(''GOOGLE_APPLICATION_CREDENTIALS'' \<mapsto> tmp_name)),
                      None))))"

text \<open>Lines 95-107. Closing the temporary file changes nothing that is modelled.\<close>

definition exit_context :: "PromptEnvContext \<times> environ \<Rightarrow> PromptEnvContext \<times> environ" where
  "exit_context w =
     (case w of (self, env) \<Rightarrow>
        (let env1 = (case anthropic_env_var_bak self of
                       Some bak \<Rightarrow> env(''ANTHROPIC_API_KEY'' \<mapsto> bak)
                     | None \<Rightarrow>
                         if env ''ANTHROPIC_API_KEY'' \<noteq> None
                         then env(''ANTHROPIC_API_KEY'' := None) else env);
             env2 = (case gcp_env_var_bak self of
                       Some bak \<Rightarrow> env1(''GOOGLE_APPLICATION_CREDENTIALS'' \<mapsto> bak)
                     | None \<Rightarrow>
                         if env1 ''GOOGLE_APPLICATION_CREDENTIALS'' \<noteq> None
                         then env1(''GOOGLE_APPLICATION_CREDENTIALS'' := None) else env1)
         in (self, env2)))"

text \<open>
  \<^verbatim>\<open>with prompt_env_context_singleton:\<close> around a body that leaves the environment
  alone: \<^verbatim>\<open>exit\<close> runs however the body ends, and does not run when \<^verbatim>\<open>enter\<close> raised.
\<close>

definition with_context ::
  "(string \<Rightarrow> string option) \<Rightarrow> (string \<Rightarrow> py_error + string) \<Rightarrow> string \<Rightarrow>
   PromptEnvContext \<times> environ \<Rightarrow> (PromptEnvContext \<times> environ) \<times> py_error option" where
  "with_context get_secret b64decode_ascii tmp_name w =
     (case enter get_secret b64decode_ascii tmp_name w of
        (w', Some e) \<Rightarrow> (w', Some e)
      | (w', None) \<Rightarrow> (exit_context w', None))"


section \<open>Notions of the specification\<close>

text \<open>
  The role segments of an element sequence, as the specification counts them: a
  \<^verbatim>\<open>RoleSwitch\<close> closes the running segment and opens an empty one; a \<^verbatim>\<open>TextBlock\<close> with a
  role closes it and opens one that holds the block; any other element joins the
  running segment. The first argument is the running segment.
\<close>

fun role_segments :: "PromptElement list \<Rightarrow> PromptElement list \<Rightarrow> PromptElement list list" where
  "role_segments cur [] = [cur]"
| "role_segments cur (Elem (RoleElement r) # es) = cur # role_segments [] es"
| "role_segments cur (Elem (TextElement t (Some r)) # es) =
     cur # role_segments [Elem (TextElement t (Some r))] es"
| "role_segments cur (e # es) = role_segments (cur @ [e]) es"

definition non_empty_segments :: "PromptElement list \<Rightarrow> PromptElement list list" where
  "non_empty_segments es = filter (\<lambda>seg. seg \<noteq> []) (role_segments [] es)"

text \<open>An element that is not a text block or a bare string with the empty text.\<close>

fun nonempty_text :: "PromptElement \<Rightarrow> bool" where
  "nonempty_text (Elem (TextElement t r)) = (t \<noteq> [])"
| "nonempty_text (Str s) = (s \<noteq> [])"
| "nonempty_text e = True"

text \<open>The invariant of the loop when no text is empty: nothing empty is ever stored.\<close>

definition no_empty_text :: "build_state \<Rightarrow> bool" where
  "no_empty_text st =
     ((\<forall>m\<in>set (messages st). content m \<noteq> []) \<and>
      (\<forall>x\<in>set (current_message_elements st). x \<noteq> []))"

text \<open>
  The payload of a chunk in each mode of the generic adapter: the argument string of
  the first tool call in tool-calling mode, the text content otherwise. A chunk is
  well formed when the indexing that reads the payload does not fail.
\<close>

fun payload :: "bool \<Rightarrow> ModelResponse \<Rightarrow> string option" where
  "payload tool_mode (ModelResponse []) = None"
| "payload tool_mode (ModelResponse (Delta text tcs # ds)) =
     (if tool_mode
      then (case tcs of Some (tc # others) \<Rightarrow> tc_arguments tc | _ \<Rightarrow> None)
      else text)"

fun well_formed :: "bool \<Rightarrow> ModelResponse \<Rightarrow> bool" where
  "well_formed tool_mode (ModelResponse []) = False"
| "well_formed tool_mode (ModelResponse (Delta text tcs # ds)) = (\<not> (tool_mode \<and> tcs = Some []))"

text \<open>The items of the object a buffer decodes to; nothing when it is not an object.\<close>

definition decoded_items :: "(string \<Rightarrow> py_error + pyval) \<Rightarrow> string \<Rightarrow> pydict" where
  "decoded_items loads buffer = (case loads buffer of Inr (PDict d) \<Rightarrow> d | _ \<Rightarrow> [])"

text \<open>
  The snapshots that reach \<^verbatim>\<open>run\<close>: those of every attempt up to the first one that does
  not end in a retried exception, in the order in which they are yielded.
\<close>

fun yielded_snapshots ::
  "(string \<Rightarrow> py_error + pyval) \<Rightarrow> py_error list \<Rightarrow>
   ((string \<times> int option) list \<times> py_error option) list \<Rightarrow> acc_state list" where
  "yielded_snapshots loads retry_errs [] = []"
| "yielded_snapshots loads retry_errs (attempt # attempts) =
     fst (iterate_invoke_llm loads (fst attempt) (snd attempt)) @
     (case snd (iterate_invoke_llm loads (fst attempt) (snd attempt)) of
        None \<Rightarrow> []
      | Some e \<Rightarrow> if e \<in> set retry_errs then yielded_snapshots loads retry_errs attempts else [])"

text \<open>
  The lines of a text, as \<^verbatim>\<open>text.split("\n")\<close> gives them: the pieces between the
  newlines, the last piece being what follows the last newline.
\<close>

fun split_lines :: "string \<Rightarrow> string list" where
  "split_lines [] = [[]]"
| "split_lines (c # cs) =
     (if c = CHR ''\<newline>'' then [] # split_lines cs
      else (case split_lines cs of
              [] \<Rightarrow> [[c]]
            | l # ls \<Rightarrow> (c # l) # ls))"

text \<open>
  What a sequence of lines yields when each is processed in turn: the deltas of the
  lines that have one, up to the first line whose processing raises.
\<close>

fun process_lines ::
  "(string \<Rightarrow> py_error + pyval) \<Rightarrow> string list \<Rightarrow> (pyval \<times> int option) list \<times> stream_end" where
  "process_lines loads [] = ([], Exhausted)"
| "process_lines loads (ln # lns) =
     (case process_completion loads ln of
        Inl e \<Rightarrow> ([], Raised e)
      | Inr None \<Rightarrow> process_lines loads lns
      | Inr (Some delta) \<Rightarrow>
          ((delta, None) # fst (process_lines loads lns), snd (process_lines loads lns)))"


section \<open>Example data\<close>

text \<open>The two lines of the specification's Ollama example, and the whole body.\<close>

definition wire_line1 :: string where
  \<open>wire_line1 = ''{"message":{"content":"Hi"}}''\<close>

definition wire_line2 :: string where
  \<open>wire_line2 = ''{"message":{"content":" there"}}''\<close>

definition wire_payload :: string where
  "wire_payload = wire_line1 @ ''\<newline>'' @ wire_line2 @ ''\<newline>''"

text \<open>A line whose content is a number, not a string.\<close>

definition wire_line_number :: string where
  \<open>wire_line_number = ''{"message":{"content":5}}''\<close>

text \<open>
  \<^verbatim>\<open>json.loads\<close> at the strings the examples decode, as a table. An integer literal of
  more than 4300 digits is a \<^verbatim>\<open>ValueError\<close>; every other string that an example hands to
  it is not a JSON document.
\<close>

definition loads_stub :: "string \<Rightarrow> py_error + pyval" where
  \<open>loads_stub s =
     (if length s > 4300 \<and> list_all (\<lambda>c. c = CHR ''1'') s then Inl ValueError
      else if s = wire_line1
      then Inr (PDict [(PStr ''message'', PDict [(PStr ''content'', PStr ''Hi'')])])
      else if s = wire_line2
      then Inr (PDict [(PStr ''message'', PDict [(PStr ''content'', PStr '' there'')])])
      else if s = wire_line_number
      then Inr (PDict [(PStr ''message'', PDict [(PStr ''content'', PInt 5)])])
      else if s = ''{}'' then Inr (PDict [])
      else if s = ''{"a": 1}'' then Inr (PDict [(PStr ''a'', PInt 1)])
      else if s = ''{"a": 2, "b": 3}''
      then Inr (PDict [(PStr ''a'', PInt 2), (PStr ''b'', PInt 3)])
      else Inl JSONDecodeError)\<close>

text \<open>
  \<^verbatim>\<open>bytes.decode()\<close> on ASCII bytes, which decode to themselves. The examples hand it
  ASCII chunks only.
\<close>

definition decode_stub :: "string \<Rightarrow> py_error + string" where
  "decode_stub bs =
     (if list_all (\<lambda>b. of_char b < (128 :: nat)) bs then Inr bs else Inl UnicodeDecodeError)"


section \<open>Properties of message assembly\<close>

lemma build_step_Inr: "\<exists>st'. build_step q e st = Inr st'"
proof (cases e)
  case (Elem b)
  then show ?thesis
    by (cases b; cases q) (auto simp: Let_def split: option.splits)
next
  case (Str s)
  then show ?thesis by simp
qed

lemma build_loop_Inr: "\<exists>st'. build_loop q es st = Inr st'"
proof (induction es arbitrary: st)
  case Nil
  show ?case by simp
next
  case (Cons e es)
  obtain st1 where "build_step q e st = Inr st1"
    using build_step_Inr by blast
  then show ?case
    using Cons.IH [of st1] by simp
qed

lemma assemble_messages_Inr: "\<exists>msgs. assemble_messages mc cfg qs = Inr msgs"
proof (cases mc)
  case (ConfigStr s)
  then show ?thesis by (simp add: assemble_messages_def)
next
  case (ConfigList es)
  obtain st where
    "build_loop (resolve_quote_style cfg qs) es
       \<lparr>messages = [], current_role = User, current_message_elements = []\<rparr> = Inr st"
    using build_loop_Inr by blast
  then show ?thesis
    using ConfigList by (simp add: assemble_messages_def Let_def)
qed

lemma build_loop_count:
  "build_loop q es st = Inr st' \<Longrightarrow> (cur = []) = (current_message_elements st = []) \<Longrightarrow>
   length (final_messages st') =
     length (messages st) + length (filter (\<lambda>seg. seg \<noteq> []) (role_segments cur es))"
proof (induction es arbitrary: st cur)
  case Nil
  then show ?case by (auto simp: final_messages_def)
next
  case (Cons e es)
  show ?case
  proof (cases e)
    case (Str s)
    with Cons.prems(1) have "build_loop q es
        (st\<lparr>current_message_elements := current_message_elements st @ [s]\<rparr>) = Inr st'"
      by simp
    from Cons.IH [OF this, of "cur @ [e]"] Str show ?thesis by simp
  next
    case (Elem b)
    show ?thesis
    proof (cases b)
      case (RoleElement r)
      with Cons.prems(1) Elem have "build_loop q es (deposit_messages r st) = Inr st'"
        by simp
      from Cons.IH [OF this, of "[]"] Cons.prems(2) Elem RoleElement show ?thesis
        by (auto simp: deposit_messages_def)
    next
      case (ContextElement v h)
      obtain s where "as_string (ContextElement v h) q = Inr s"
        by (cases q) auto
      with Cons.prems(1) Elem ContextElement have "build_loop q es
          (st\<lparr>current_message_elements := current_message_elements st @ [s]\<rparr>) = Inr st'"
        by simp
      from Cons.IH [OF this, of "cur @ [e]"] Elem ContextElement show ?thesis by simp
    next
      case (TextElement t ro)
      show ?thesis
      proof (cases ro)
        case None
        with Cons.prems(1) Elem TextElement have "build_loop q es
            (st\<lparr>current_message_elements := current_message_elements st @ [t]\<rparr>) = Inr st'"
          by simp
        from Cons.IH [OF this, of "cur @ [e]"] Elem TextElement None show ?thesis by simp
      next
        case (Some r)
        with Cons.prems(1) Elem TextElement have "build_loop q es
            ((deposit_messages r st)\<lparr>current_message_elements :=
               current_message_elements (deposit_messages r st) @ [t]\<rparr>) = Inr st'"
          by (simp add: Let_def)
        from Cons.IH [OF this, of "[e]"] Cons.prems(2) Elem TextElement Some show ?thesis
          by (auto simp: deposit_messages_def)
      qed
    qed
  qed
qed

lemma join_nonempty: "xs \<noteq> [] \<Longrightarrow> \<forall>x\<in>set xs. x \<noteq> [] \<Longrightarrow> join sep xs \<noteq> []"
  by (induction sep xs rule: join.induct) auto

lemma deposit_no_empty: "no_empty_text st \<Longrightarrow> no_empty_text (deposit_messages r st)"
  by (auto simp: no_empty_text_def deposit_messages_def join_nonempty)

lemma append_no_empty:
  "no_empty_text st \<Longrightarrow> s \<noteq> [] \<Longrightarrow>
   no_empty_text (st\<lparr>current_message_elements := current_message_elements st @ [s]\<rparr>)"
  by (auto simp: no_empty_text_def)

lemma build_step_no_empty:
  assumes "build_step q e st = Inr st'" and "nonempty_text e" and "no_empty_text st"
  shows "no_empty_text st'"
proof (cases e)
  case (Elem b)
  show ?thesis
  proof (cases b)
    case (RoleElement r)
    with assms Elem show ?thesis by (auto simp: deposit_no_empty)
  next
    case (TextElement t ro)
    with assms Elem show ?thesis
      by (cases ro) (auto simp: deposit_no_empty append_no_empty Let_def)
  next
    case (ContextElement v h)
    with assms Elem show ?thesis
      by (cases q) (auto simp: append_no_empty)
  qed
next
  case (Str s)
  with assms show ?thesis by (auto simp: append_no_empty)
qed

lemma build_loop_no_empty:
  "build_loop q es st = Inr st' \<Longrightarrow> \<forall>e\<in>set es. nonempty_text e \<Longrightarrow> no_empty_text st \<Longrightarrow>
   no_empty_text st'"
proof (induction es arbitrary: st)
  case Nil
  then show ?case by simp
next
  case (Cons e es)
  then show ?case
    by (auto split: sum.splits dest: build_step_no_empty)
qed

lemma final_messages_no_empty:
  "no_empty_text st \<Longrightarrow> \<forall>m\<in>set (final_messages st). content m \<noteq> []"
  by (auto simp: no_empty_text_def final_messages_def join_nonempty)

text \<open>
  C8. A prompt that is a bare string is assembled into exactly one message, of role
  user, whose content is the string itself; the token budget is applied to that list
  afterwards, and leaves it as it is when the count is within the budget.
\<close>

theorem bare_string_single_user_message:
  "assemble_messages (ConfigStr s) cfg qs = Inr [\<lparr>role = User, content = s\<rparr>] \<and>
   build_messages token_counter trim_messages (ConfigStr s) cfg qs =
     (if token_counter (model cfg) [\<lparr>role = User, content = s\<rparr>] > max_prompt_tokens cfg
      then (case trim_messages [\<lparr>role = User, content = s\<rparr>] (max_prompt_tokens cfg) (model cfg) of
              None \<Rightarrow> Inl ValueError
            | Some trimmed \<Rightarrow> Inr trimmed)
      else Inr [\<lparr>role = User, content = s\<rparr>])"
  by (simp add: assemble_messages_def build_messages_def)

text \<open>
  C9. Rendering a RoleElement raises RuntimeError, and message assembly never reaches
  that call: for every prompt and every quote style it returns a message list, where an
  exception of \<open>as_string\<close> would have left it.
\<close>

theorem role_element_never_rendered:
  "as_string (RoleElement r) q = Inl RuntimeError \<and>
   (\<exists>msgs. assemble_messages mc cfg qs = Inr msgs) \<and>
   assemble_messages mc cfg qs \<noteq> Inl RuntimeError"
proof -
  obtain msgs where "assemble_messages mc cfg qs = Inr msgs"
    using assemble_messages_Inr by blast
  then show ?thesis by simp
qed

text \<open>
  C6 (as amended). For every prompt element sequence the assembled list has exactly as
  many messages as the sequence has non-empty role segments; and when no text block or
  bare string of the sequence is empty, no assembled message has empty content.
\<close>

theorem message_count_equals_segments:
  "\<exists>msgs. assemble_messages (ConfigList es) cfg qs = Inr msgs \<and>
     length msgs = length (non_empty_segments es) \<and>
     ((\<forall>e\<in>set es. nonempty_text e) \<longrightarrow> (\<forall>m\<in>set msgs. content m \<noteq> []))"
proof -
  let ?st0 = "\<lparr>messages = [], current_role = User, current_message_elements = []\<rparr>"
  obtain st where st: "build_loop (resolve_quote_style cfg qs) es ?st0 = Inr st"
    using build_loop_Inr by blast
  have asm: "assemble_messages (ConfigList es) cfg qs = Inr (final_messages st)"
    using st by (simp add: assemble_messages_def Let_def)
  have cnt: "length (final_messages st) = length (non_empty_segments es)"
    using build_loop_count [OF st, of "[]"] by (simp add: non_empty_segments_def)
  have cont: "\<forall>m\<in>set (final_messages st). content m \<noteq> []" if "\<forall>e\<in>set es. nonempty_text e"
  proof -
    have "no_empty_text ?st0" by (simp add: no_empty_text_def)
    then have "no_empty_text st"
      using build_loop_no_empty [OF st that] by simp
    then show ?thesis by (rule final_messages_no_empty)
  qed
  from asm cnt cont show ?thesis by blast
qed

theorem message_count_equals_segments_witness:
  "list_all nonempty_text
     [Elem (RoleElement System), Elem (TextElement ''Be terse.'' None),
      Elem (RoleElement User), Elem (TextElement ''Hi'' None)] \<and>
   (\<exists>msgs. assemble_messages
        (ConfigList [Elem (RoleElement System), Elem (TextElement ''Be terse.'' None),
                     Elem (RoleElement User), Elem (TextElement ''Hi'' None)])
        \<lparr>model = ''gpt-4o'', max_prompt_tokens = 1000\<rparr> None = Inr msgs \<and>
      length msgs = 2 \<and> list_all (\<lambda>m. content m \<noteq> []) msgs)"
  using message_count_equals_segments
    [of "[Elem (RoleElement System), Elem (TextElement ''Be terse.'' None),
          Elem (RoleElement User), Elem (TextElement ''Hi'' None)]"
        "\<lparr>model = ''gpt-4o'', max_prompt_tokens = 1000\<rparr>" None]
  by (auto simp: non_empty_segments_def list_all_iff)

theorem empty_text_block_empty_content:
  "assemble_messages
     (ConfigList [Elem (RoleElement System), Elem (TextElement [] None)])
     \<lparr>model = ''gpt-4o'', max_prompt_tokens = 1000\<rparr> None =
   Inr [\<lparr>role = System, content = []\<rparr>]"
  by (simp add: assemble_messages_def Let_def final_messages_def deposit_messages_def)


section \<open>Properties of the generic adapter\<close>

lemma str_contains_sublist: "str_contains needle hay = sublist needle hay"
  by (induction hay) (auto simp: sublist_Cons_right)

lemma str_contains_iff: "str_contains needle hay = (\<exists>pre suf. hay = pre @ needle @ suf)"
  by (simp add: str_contains_sublist sublist_def)

text \<open>
  C4 (as amended). With an output schema requested, the generic adapter is the one that
  runs, and it asks for the strict JSON-schema response format exactly when the model
  identifier contains \<open>gpt\<close> anywhere; every other identifier gets the single function
  tool named \<open>function\<close>, whose parameters are the dumped schema, with the tool choice
  \<open>required\<close>.
\<close>

theorem schema_mode_by_gpt_substring:
  "select_provider model_id True = LiteLLM \<and>
   schema_kwargs model_dump model_id (Some sch) =
     (if (\<exists>pre suf. model_id = pre @ ''gpt'' @ suf)
      then \<lparr>response_format =
              Some \<lparr>fmt_type = ''json_schema'', fmt_name = ''function'',
                    fmt_schema = model_dump sch, fmt_strict = True\<rparr>,
            tool_choice = None, tools = None\<rparr>
      else \<lparr>response_format = None, tool_choice = Some ''required'',
            tools = Some [\<lparr>tool_type = ''function'', function_name = ''function'',
                          function_parameters = model_dump sch\<rparr>]\<rparr>)"
  by (simp add: select_provider_def schema_kwargs_def use_tool_calling_def Let_def
      str_contains_iff)

theorem gpt_inside_identifier_uses_response_format:
  "\<not> prefix ''gpt'' ''azure/gpt-4o'' \<and>
   schema_kwargs (\<lambda>x. x) ''azure/gpt-4o'' (Some (PDict [(PStr ''type'', PStr ''object'')])) =
     \<lparr>response_format =
        Some \<lparr>fmt_type = ''json_schema'', fmt_name = ''function'',
              fmt_schema = PDict [(PStr ''type'', PStr ''object'')], fmt_strict = True\<rparr>,
      tool_choice = None, tools = None\<rparr>"
  by (simp add: schema_kwargs_def use_tool_calling_def Let_def)

lemma invoke_litellm_loop_payload:
  assumes "\<forall>c\<in>set cs. well_formed (sg \<and> utc) c"
  shows "map fst (fst (invoke_litellm_loop sg utc ti cs src_end)) =
           map (\<lambda>c. the (payload (sg \<and> utc) c)) (takeWhile (\<lambda>c. payload (sg \<and> utc) c \<noteq> None) cs) \<and>
         snd (invoke_litellm_loop sg utc ti cs src_end) =
           (if \<exists>c\<in>set cs. payload (sg \<and> utc) c = None then Break
            else case src_end of None \<Rightarrow> Exhausted | Some e \<Rightarrow> Raised e)"
  using assms
proof (induction cs arbitrary: ti)
  case Nil
  show ?case by simp
next
  case (Cons c cs)
  obtain ds where c: "c = ModelResponse ds" by (cases c)
  from Cons.prems c obtain cont tcs ds' where ds: "ds = Delta cont tcs # ds'"
    by (cases ds) (auto, metis delta.exhaust)
  have wf: "\<not> (sg \<and> utc \<and> tcs = Some [])"
    using Cons.prems c ds by auto
  have rest: "\<forall>c\<in>set cs. well_formed (sg \<and> utc) c"
    using Cons.prems by simp
  note IH = Cons.IH [OF rest]
  show ?case
  proof (cases "sg \<and> utc")
    case False
    then show ?thesis
      using c ds IH [of ti]
      by (cases cont) (auto simp: case_prod_unfold Let_def)
  next
    case True
    show ?thesis
    proof (cases tcs)
      case None
      with True c ds show ?thesis by simp
    next
      case (Some tl)
      with wf True obtain tc others where tl: "tl = tc # others" by (cases tl) auto
      show ?thesis
        using True c ds Some tl IH [of "Some (tc_index tc)"]
        by (cases "tc_arguments tc") (auto simp: case_prod_unfold Let_def)
    qed
  qed
qed

text \<open>
  C3 (as amended). On a stream of well-formed chunks the generic adapter yields the
  payloads of the chunks that come before the first chunk without a payload, and it
  stops at that chunk, or where the stream ends when every chunk has a payload. The
  payload depends on the mode: in tool-calling mode (a schema is requested and the
  identifier does not contain \<open>gpt\<close>) it is the argument string of the first tool call,
  so a chunk that carries only text content ends the stream; in every other mode it is
  the text content, so a chunk that carries only a tool call ends the stream.
\<close>

theorem stream_ends_at_first_absent_payload:
  assumes "\<forall>c\<in>set stream. well_formed (schema_given \<and> use_tool_calling model_id) c"
  shows "map fst (fst (invoke_litellm model_id schema_given stream src_end)) =
           map (\<lambda>c. the (payload (schema_given \<and> use_tool_calling model_id) c))
             (takeWhile (\<lambda>c. payload (schema_given \<and> use_tool_calling model_id) c \<noteq> None) stream) \<and>
         snd (invoke_litellm model_id schema_given stream src_end) =
           (if \<exists>c\<in>set stream. payload (schema_given \<and> use_tool_calling model_id) c = None
            then Break
            else case src_end of None \<Rightarrow> Exhausted | Some e \<Rightarrow> Raised e) \<and>
         payload True (ModelResponse [Delta (Some t) None]) = None \<and>
         payload False (ModelResponse [Delta None (Some tcs)]) = None"
  using invoke_litellm_loop_payload [OF assms, of None src_end]
  by (simp add: invoke_litellm_def)

theorem stream_ends_at_first_absent_payload_witness:
  \<open>list_all (well_formed (True \<and> use_tool_calling ''claude-3-5-sonnet''))
     [ModelResponse [Delta None (Some [ToolCall 0 (Some ''{"a":'')])],
      ModelResponse [Delta None (Some [ToolCall 0 (Some '' 1}'')])],
      ModelResponse [Delta None None],
      ModelResponse [Delta None (Some [ToolCall 0 (Some ''{}'')])]] \<and>
   map fst (fst (invoke_litellm ''claude-3-5-sonnet'' True
     [ModelResponse [Delta None (Some [ToolCall 0 (Some ''{"a":'')])],
      ModelResponse [Delta None (Some [ToolCall 0 (Some '' 1}'')])],
      ModelResponse [Delta None None],
      ModelResponse [Delta None (Some [ToolCall 0 (Some ''{}'')])]] None)) =
     [''{"a":'', '' 1}''] \<and>
   snd (invoke_litellm ''claude-3-5-sonnet'' True
     [ModelResponse [Delta None (Some [ToolCall 0 (Some ''{"a":'')])],
      ModelResponse [Delta None (Some [ToolCall 0 (Some '' 1}'')])],
      ModelResponse [Delta None None],
      ModelResponse [Delta None (Some [ToolCall 0 (Some ''{}'')])]] None) = Break\<close>
  using stream_ends_at_first_absent_payload
    [of \<open>[ModelResponse [Delta None (Some [ToolCall 0 (Some ''{"a":'')])],
      ModelResponse [Delta None (Some [ToolCall 0 (Some '' 1}'')])],
      ModelResponse [Delta None None],
      ModelResponse [Delta None (Some [ToolCall 0 (Some ''{}'')])]]\<close> True "''claude-3-5-sonnet''" None]
  by (simp add: use_tool_calling_def)

theorem text_delta_ends_tool_stream:
  "invoke_litellm ''claude-3-5-sonnet'' True
     [ModelResponse [Delta (Some ''Sure.'') None],
      ModelResponse [Delta None (Some [ToolCall 0 (Some ''{}'')])]] None = ([], Break)"
  by (simp add: invoke_litellm_def use_tool_calling_def)

section \<open>Properties of the credential context\<close>

text \<open>
  What does hold: when both secrets are set and the credentials decode, entering and
  leaving puts both variables back.
\<close>

lemma with_context_restores_when_both_set:
  assumes "get_secret ''ANTHROPIC_API_KEY'' = Some a"
    and "get_secret ''GCP_CREDENTIALS_64'' = Some g"
    and "b64decode_ascii g = Inr creds"
  shows "snd (fst (with_context get_secret b64decode_ascii tmp_name (self, env))) = env"
  using assms
  by (auto simp: with_context_def enter_def exit_context_def Let_def fun_eq_iff
      split: option.splits)

text \<open>
  C2. With no secret set, a fresh context and an environment in which
  GOOGLE_APPLICATION_CREDENTIALS is set, entering and leaving the context removes the
  variable: \<open>enter\<close> saves nothing, and \<open>exit\<close> takes the empty backup for a variable that
  was not set before.
\<close>

theorem exit_deletes_untouched_variable:
  "snd (fst (with_context (\<lambda>name. None) (\<lambda>s. Inr s) ''/tmp/tmpq3x''
       (new_context, [''GOOGLE_APPLICATION_CREDENTIALS'' \<mapsto> ''/home/me/adc.json''])))
     ''GOOGLE_APPLICATION_CREDENTIALS'' = None \<and>
   [''GOOGLE_APPLICATION_CREDENTIALS'' \<mapsto> ''/home/me/adc.json'']
     ''GOOGLE_APPLICATION_CREDENTIALS'' = Some ''/home/me/adc.json''"
  by (simp add: with_context_def enter_def exit_context_def new_context_def)


section \<open>Properties of accumulation and retry\<close>

lemma loads_stub_simps:
  \<open>loads_stub ''{}'' = Inr (PDict [])\<close>
  \<open>loads_stub ''{"a": 1}'' = Inr (PDict [(PStr ''a'', PInt 1)])\<close>
  \<open>loads_stub ''{"a": 2, "b": 3}'' = Inr (PDict [(PStr ''a'', PInt 2), (PStr ''b'', PInt 3)])\<close>
  \<open>loads_stub ''{"b":'' = Inl JSONDecodeError\<close>
  \<open>loads_stub ''{"a":'' = Inl JSONDecodeError\<close>
  by (simp_all add: loads_stub_def wire_line1_def wire_line2_def wire_line_number_def)

lemma emit_data_None: "(data (emit st) = None) = (acc_partial_data st = [])"
  by (simp add: emit_def)

lemma emit_data_not_empty:
  "data (emit st) \<noteq> Some (PDict [])" "Some (PDict []) \<noteq> data (emit st)"
  by (simp_all add: emit_def)

lemma retry_loop_emits_snapshots:
  "fst (retry_loop loads retry_errs vars attempts) =
     map emit (yielded_snapshots loads retry_errs attempts)"
proof (induction attempts arbitrary: vars)
  case Nil
  show ?case by simp
next
  case (Cons a attempts)
  show ?case
    using Cons.IH
    by (simp add: Let_def split: option.splits)
qed

lemma dict_setitem_not_Nil: "dict_setitem d k v \<noteq> []"
  by (cases d) (auto split: if_splits)

lemma dict_merge_eq_Nil: "(dict_merge d items = []) = (d = [] \<and> items = [])"
proof (induction items arbitrary: d)
  case Nil
  show ?case by simp
next
  case (Cons kv items)
  obtain k v where kv: "kv = (k, v)" by (cases kv)
  show ?case
    using Cons.IH [of "dict_setitem d k v"]
    by (simp add: kv dict_setitem_not_Nil)
qed

text \<open>
  C10. Every output that the retry loop yields before finalization is built from one
  snapshot of the accumulator, in order, and its data field is None exactly when the
  merged partial object of that snapshot has no keys; with keys, it is that object. So
  no output carries the empty object. In particular, when the one tool-slot buffer of a
  stream decodes to an object, the output carries that object if it has keys and None
  if it is the empty object.
\<close>

theorem empty_partial_data_emitted_as_none:
  assumes "loads buffer = Inr (PDict d)"
  shows "fst (retry_loop loads retry_errs vars attempts) =
           map (\<lambda>st. \<lparr>result = acc_output st, response = acc_output st,
                       data = (if acc_partial_data st = [] then None
                               else Some (PDict (acc_partial_data st)))\<rparr>)
             (yielded_snapshots loads retry_errs attempts) \<and>
         map (\<lambda>out. data out = None) (fst (retry_loop loads retry_errs vars attempts)) =
           map (\<lambda>st. acc_partial_data st = []) (yielded_snapshots loads retry_errs attempts) \<and>
         Some (PDict []) \<notin> set (map data (fst (retry_loop loads retry_errs vars attempts))) \<and>
         fst (retry_loop loads retry_errs vars [([(buffer, Some i)], None)]) =
           [\<lparr>result = buffer, response = buffer,
             data = (if d = [] then None else Some (PDict (dict_merge [] d)))\<rparr>]"
proof -
  have a: "fst (retry_loop loads retry_errs vars attempts) =
           map (\<lambda>st. \<lparr>result = acc_output st, response = acc_output st,
                       data = (if acc_partial_data st = [] then None
                               else Some (PDict (acc_partial_data st)))\<rparr>)
             (yielded_snapshots loads retry_errs attempts)"
    by (simp add: retry_loop_emits_snapshots emit_def)
  have b: "map (\<lambda>out. data out = None) (fst (retry_loop loads retry_errs vars attempts)) =
           map (\<lambda>st. acc_partial_data st = []) (yielded_snapshots loads retry_errs attempts)"
    by (simp add: retry_loop_emits_snapshots emit_data_None)
  have c: "Some (PDict []) \<notin> set (map data (fst (retry_loop loads retry_errs vars attempts)))"
    by (auto simp: retry_loop_emits_snapshots emit_data_not_empty)
  have d: "fst (retry_loop loads retry_errs vars [([(buffer, Some i)], None)]) =
           [\<lparr>result = buffer, response = buffer,
             data = (if d = [] then None else Some (PDict (dict_merge [] d)))\<rparr>]"
  proof -
    have step: "accumulate_step loads
        \<lparr>acc_output = [], acc_tool_responses = [], acc_partial_data = []\<rparr> (buffer, Some i) =
        Inr \<lparr>acc_output = buffer, acc_tool_responses = [(i, buffer)],
             acc_partial_data = dict_merge [] d\<rparr>"
      by (simp add: accumulate_step_def Let_def assms)
    have "iterate_invoke_llm loads [(buffer, Some i)] None =
        ([\<lparr>acc_output = buffer, acc_tool_responses = [(i, buffer)],
           acc_partial_data = dict_merge [] d\<rparr>], None)"
      by (simp add: iterate_invoke_llm_def step)
    then show ?thesis
      by (simp add: emit_def dict_merge_eq_Nil)
  qed
  show ?thesis
    by (intro conjI) (rule a, rule b, rule c, rule d)
qed

theorem empty_partial_data_emitted_as_none_witness:
  \<open>loads_stub ''{}'' = Inr (PDict []) \<and>
   fst (retry_loop loads_stub (retry_errors True) ([], []) [([(''{}'', Some 0)], None)]) =
     [\<lparr>result = ''{}'', response = ''{}'', data = None\<rparr>] \<and>
   loads_stub ''{"a": 1}'' = Inr (PDict [(PStr ''a'', PInt 1)]) \<and>
   fst (retry_loop loads_stub (retry_errors True) ([], []) [([(''{"a": 1}'', Some 0)], None)]) =
     [\<lparr>result = ''{"a": 1}'', response = ''{"a": 1}'',
       data = Some (PDict [(PStr ''a'', PInt 1)])\<rparr>]\<close>
proof -
  note empty = empty_partial_data_emitted_as_none
      [of loads_stub "''{}''" "[]" "retry_errors True" "([], [])" "[]" 0,
       OF loads_stub_simps(1), THEN conjunct2, THEN conjunct2, THEN conjunct2]
  note keyed = empty_partial_data_emitted_as_none
      [of loads_stub \<open>''{"a": 1}''\<close> "[(PStr ''a'', PInt 1)]" "retry_errors True" "([], [])" "[]" 0,
       OF loads_stub_simps(2), THEN conjunct2, THEN conjunct2, THEN conjunct2]
  from empty keyed loads_stub_simps(1) loads_stub_simps(2) show ?thesis
    by simp
qed

lemma accumulate_step_output:
  "accumulate_step loads st ev = Inr st' \<Longrightarrow> acc_output st' = acc_output st @ fst ev"
  by (cases ev)
    (auto simp: accumulate_step_def Let_def split: option.splits sum.splits if_splits)

lemma accumulate_loop_output:
  "accumulate_loop loads st evs src_end = (snaps, None) \<Longrightarrow> evs \<noteq> [] \<Longrightarrow>
   snaps \<noteq> [] \<and> acc_output (last snaps) = acc_output st @ concat (map fst evs)"
proof (induction evs arbitrary: st snaps)
  case Nil
  then show ?case by simp
next
  case (Cons ev evs)
  from Cons.prems(1) obtain st' where st': "accumulate_step loads st ev = Inr st'"
    by (cases "accumulate_step loads st ev") auto
  obtain later e where later: "accumulate_loop loads st' evs src_end = (later, e)"
    by (cases "accumulate_loop loads st' evs src_end")
  from Cons.prems(1) st' later have snaps: "snaps = st' # later" and e: "e = None"
    by (auto simp: Let_def)
  show ?case
  proof (cases evs)
    case Nil
    with later snaps show ?thesis
      using accumulate_step_output [OF st'] by simp
  next
    case (Cons ev' evs')
    with Cons.IH [of st' later] later e snaps show ?thesis
      using accumulate_step_output [OF st'] by simp
  qed
qed

text \<open>
  What does hold: after a retried attempt, an attempt that completes with at least one
  event leaves exactly the concatenation of its own deltas in \<open>output\<close>.
\<close>

lemma retry_restart_nonempty:
  assumes "snd (iterate_invoke_llm loads (fst failed) (snd failed)) = Some e"
    and "e \<in> set retry_errs"
    and "snd (iterate_invoke_llm loads evs None) = None"
    and "evs \<noteq> []"
  shows "\<exists>trs. snd (retry_loop loads retry_errs vars [failed, (evs, None)]) =
           Done (concat (map fst evs), trs)"
proof -
  obtain snaps where snaps: "iterate_invoke_llm loads evs None = (snaps, None)"
    using assms(3) by (cases "iterate_invoke_llm loads evs None") auto
  from accumulate_loop_output [OF snaps [unfolded iterate_invoke_llm_def] assms(4)]
  have "snaps \<noteq> []" and "acc_output (last snaps) = concat (map fst evs)"
    by simp_all
  then show ?thesis
    using assms(1,2) snaps by (simp add: Let_def)
qed

text \<open>
  C5. The claim fails on the code at this input: the first attempt yields one tool-slot
  delta and then fails with a retryable error, and the second attempt completes without
  a delta. The variables \<open>output\<close> and \<open>tool_responses\<close> of \<open>run\<close> are assigned only when
  a snapshot arrives, so they keep the text and the buffer of the failed attempt, and
  the final output of \<open>run\<close> is built from them instead of from the empty text of the
  attempt that succeeded.
\<close>

theorem stale_output_after_empty_retry:
  \<open>snd (retry_loop loads_stub (retry_errors True) ([], [])
          [([(''{"a": 1}'', Some 0)], Some ClientError), ([], None)]) =
     Done (''{"a": 1}'', [(0, ''{"a": 1}'')]) \<and>
   run loads_stub (\<lambda>schema :: unit. Some ()) (\<lambda>(m :: unit) d. True) (retry_errors True)
       (\<lambda>completion. Inr (0 :: int)) (Some ())
       [([(''{"a": 1}'', Some 0)], Some ClientError), ([], None)] =
     ([\<lparr>result = ''{"a": 1}'', response = ''{"a": 1}'',
        data = Some (PDict [(PStr ''a'', PInt 1)])\<rparr>,
       \<lparr>result = ''{"a": 1}'', response = ''{"a": 1}'',
        data = Some (PDict [(PStr ''a'', PInt 1)])\<rparr>],
      Done ())\<close>
  by (simp add: run_def parse_structured_response_def iterate_invoke_llm_def
      accumulate_step_def emit_def retry_errors_def Let_def loads_stub_simps py_eq_def)


section \<open>Properties of the structured output\<close>

lemma dict_get_setitem:
  "dict_get (dict_setitem d k v) k' = (if py_eq k k' then Some v else dict_get d k')"
  by (induction d) (auto simp: py_eq_def)

lemma dict_get_append:
  "dict_get (xs @ ys) k = (case dict_get xs k of Some v \<Rightarrow> Some v | None \<Rightarrow> dict_get ys k)"
  by (induction xs) auto

lemma dict_get_merge:
  "dict_get (dict_merge d items) k =
     (case dict_get (rev items) k of Some v \<Rightarrow> Some v | None \<Rightarrow> dict_get d k)"
proof (induction items arbitrary: d)
  case Nil
  show ?case by simp
next
  case (Cons kv items)
  obtain k0 v0 where kv: "kv = (k0, v0)" by (cases kv)
  show ?case
    using Cons.IH [of "dict_setitem d k0 v0"]
    by (simp add: kv dict_get_setitem dict_get_append split: option.splits)
qed

lemma merge_tool_responses_objects:
  "\<forall>b\<in>set bs. \<exists>d. loads b = Inr (PDict d) \<Longrightarrow>
   merge_tool_responses loads data0 bs =
     Inr (Some (foldl dict_merge data0 (map (decoded_items loads) bs)))"
  by (induction bs arbitrary: data0) (auto simp: decoded_items_def)

lemma merge_tool_responses_failure:
  "\<forall>b\<in>set bs. loads b = Inl JSONDecodeError \<or> (\<exists>d. loads b = Inr (PDict d)) \<Longrightarrow>
   \<exists>b\<in>set bs. loads b = Inl JSONDecodeError \<Longrightarrow>
   merge_tool_responses loads data0 bs = Inr None"
proof (induction bs arbitrary: data0)
  case Nil
  then show ?case by simp
next
  case (Cons b bs)
  show ?case
  proof (cases "loads b = Inl JSONDecodeError")
    case True
    then show ?thesis by simp
  next
    case False
    with Cons.prems(1) obtain d where d: "loads b = Inr (PDict d)" by auto
    from Cons.prems False have "\<exists>b\<in>set bs. loads b = Inl JSONDecodeError" by auto
    moreover from Cons.prems(1)
    have "\<forall>b\<in>set bs. loads b = Inl JSONDecodeError \<or> (\<exists>d. loads b = Inr (PDict d))"
      by simp
    ultimately show ?thesis
      using Cons.IH [of "dict_merge data0 d"] d by simp
  qed
qed

text \<open>
  C1 (as amended). When at least one tool-slot buffer exists and every buffer either
  decodes to an object or fails to decode: if all of them decode, the candidate is the
  merge of all buffers in slot insertion order, a later slot overwriting the keys it
  shares with an earlier one, and it is returned when the schema has a model that
  accepts it; if any of them fails to decode, the whole finalization fails, whatever
  the other buffers hold, and \<open>run\<close> then raises RuntimeError instead of yielding a
  final output.
\<close>

theorem tool_buffers_merge_or_fail:
  assumes "tool_responses \<noteq> []"
    and "\<forall>b\<in>set (map snd tool_responses).
           loads b = Inl JSONDecodeError \<or> (\<exists>d. loads b = Inr (PDict d))"
  shows "parse_structured_response loads construct_model model_validate
           tool_responses output schema =
           (if \<exists>b\<in>set (map snd tool_responses). loads b = Inl JSONDecodeError then Inr PNone
            else case construct_model schema of
                   None \<Rightarrow> Inr PNone
                 | Some m \<Rightarrow>
                     if model_validate m
                          (PDict (foldl dict_merge []
                             (map (decoded_items loads) (map snd tool_responses))))
                     then Inr (PDict (foldl dict_merge []
                             (map (decoded_items loads) (map snd tool_responses))))
                     else Inr PNone) \<and>
         dict_get (dict_merge d items) k =
           (case dict_get (rev items) k of Some v \<Rightarrow> Some v | None \<Rightarrow> dict_get d k) \<and>
         (snd (retry_loop loads retry_errs ([], []) attempts) = Done (output, tool_responses) \<and>
          (\<exists>b\<in>set (map snd tool_responses). loads b = Inl JSONDecodeError) \<and>
          (\<forall>e. estimate_cost output = Inl e \<longrightarrow> e = NotFoundError) \<longrightarrow>
          run loads construct_model model_validate retry_errs estimate_cost (Some schema)
              attempts =
            (fst (retry_loop loads retry_errs ([], []) attempts), Failed RuntimeError))"
proof -
  have parse: "parse_structured_response loads construct_model model_validate
           tool_responses output schema =
           (if \<exists>b\<in>set (map snd tool_responses). loads b = Inl JSONDecodeError then Inr PNone
            else case construct_model schema of
                   None \<Rightarrow> Inr PNone
                 | Some m \<Rightarrow>
                     if model_validate m
                          (PDict (foldl dict_merge []
                             (map (decoded_items loads) (map snd tool_responses))))
                     then Inr (PDict (foldl dict_merge []
                             (map (decoded_items loads) (map snd tool_responses))))
                     else Inr PNone)"
  proof (cases "\<exists>b\<in>set (map snd tool_responses). loads b = Inl JSONDecodeError")
    case True
    from merge_tool_responses_failure [OF assms(2) True, of "[]"] True assms(1)
    show ?thesis
      by (simp add: parse_structured_response_def)
  next
    case False
    with assms(2) have "\<forall>b\<in>set (map snd tool_responses). \<exists>d. loads b = Inr (PDict d)"
      by blast
    from merge_tool_responses_objects [OF this, of "[]"] False assms(1)
    show ?thesis
      by (simp add: parse_structured_response_def split: option.splits)
  qed
  have raises: "run loads construct_model model_validate retry_errs estimate_cost (Some schema)
              attempts =
            (fst (retry_loop loads retry_errs ([], []) attempts), Failed RuntimeError)"
    if finished: "snd (retry_loop loads retry_errs ([], []) attempts) = Done (output, tool_responses)"
      and bad: "\<exists>b\<in>set (map snd tool_responses). loads b = Inl JSONDecodeError"
      and cost: "\<forall>e. estimate_cost output = Inl e \<longrightarrow> e = NotFoundError"
  proof -
    have "parse_structured_response loads construct_model model_validate
           tool_responses output schema = Inr PNone"
      using parse bad by simp
    then show ?thesis
      using finished cost
      by (auto simp: run_def Let_def split: sum.splits)
  qed
  from parse raises dict_get_merge show ?thesis by blast
qed

theorem tool_buffers_merge_or_fail_witness:
  \<open>list_all (\<lambda>b. \<exists>d. loads_stub b = Inr (PDict d)) [''{"a": 1}'', ''{"a": 2, "b": 3}''] \<and>
   parse_structured_response loads_stub (\<lambda>schema :: unit. Some ()) (\<lambda>(m :: unit) d. True)
     [(0, ''{"a": 1}''), (1, ''{"a": 2, "b": 3}'')] ''{"a": 1}{"a": 2, "b": 3}'' () =
     Inr (PDict [(PStr ''a'', PInt 2), (PStr ''b'', PInt 3)]) \<and>
   snd (retry_loop loads_stub (retry_errors True) ([], [])
          [([(''{"a": 1}'', Some 0), (''{"b":'', Some 1)], None)]) =
     Done (''{"a": 1}{"b":'', [(0, ''{"a": 1}''), (1, ''{"b":'')]) \<and>
   snd (run loads_stub (\<lambda>schema :: unit. Some ()) (\<lambda>(m :: unit) d. True) (retry_errors True)
          (\<lambda>completion. Inr (0 :: int)) (Some ())
          [([(''{"a": 1}'', Some 0), (''{"b":'', Some 1)], None)]) = Failed RuntimeError\<close>
proof -
  have ok: \<open>list_all (\<lambda>b. \<exists>d. loads_stub b = Inr (PDict d)) [''{"a": 1}'', ''{"a": 2, "b": 3}'']\<close>
    by (simp add: loads_stub_simps)
  have finished: \<open>snd (retry_loop loads_stub (retry_errors True) ([], [])
          [([(''{"a": 1}'', Some 0), (''{"b":'', Some 1)], None)]) =
     Done (''{"a": 1}{"b":'', [(0, ''{"a": 1}''), (1, ''{"b":'')])\<close>
    by (simp add: iterate_invoke_llm_def accumulate_step_def Let_def loads_stub_simps)
  have merged: \<open>parse_structured_response loads_stub (\<lambda>schema :: unit. Some ())
        (\<lambda>(m :: unit) d. True)
        [(0, ''{"a": 1}''), (1, ''{"a": 2, "b": 3}'')] ''{"a": 1}{"a": 2, "b": 3}'' () =
      Inr (PDict [(PStr ''a'', PInt 2), (PStr ''b'', PInt 3)])\<close>
    using tool_buffers_merge_or_fail
      [of \<open>[(0, ''{"a": 1}''), (1, ''{"a": 2, "b": 3}'')]\<close> loads_stub
          "\<lambda>schema :: unit. Some ()" "\<lambda>(m :: unit) d. True"
          \<open>''{"a": 1}{"a": 2, "b": 3}''\<close> "()" "[]" "[]" PNone "[]" "[]" "\<lambda>c. Inr (0 :: int)"]
    by (simp add: loads_stub_simps decoded_items_def py_eq_def)
  have raised: \<open>snd (run loads_stub (\<lambda>schema :: unit. Some ()) (\<lambda>(m :: unit) d. True)
          (retry_errors True) (\<lambda>completion. Inr (0 :: int)) (Some ())
          [([(''{"a": 1}'', Some 0), (''{"b":'', Some 1)], None)]) = Failed RuntimeError\<close>
    using tool_buffers_merge_or_fail
      [of \<open>[(0, ''{"a": 1}''), (1, ''{"b":'')]\<close> loads_stub
          "\<lambda>schema :: unit. Some ()" "\<lambda>(m :: unit) d. True"
          \<open>''{"a": 1}{"b":''\<close> "()" "[]" "[]" PNone "retry_errors True"
          \<open>[([(''{"a": 1}'', Some 0), (''{"b":'', Some 1)], None)]\<close> "\<lambda>c. Inr (0 :: int)"]
      finished
    by (simp add: loads_stub_simps)
  from ok merged finished raised show ?thesis by blast
qed

theorem one_bad_buffer_fails_finalization:
  \<open>loads_stub ''{"a": 1}'' = Inr (PDict [(PStr ''a'', PInt 1)]) \<and>
   loads_stub ''{"b":'' = Inl JSONDecodeError \<and>
   parse_structured_response loads_stub (\<lambda>schema :: unit. Some ()) (\<lambda>(m :: unit) d. True)
     [(0, ''{"a": 1}''), (1, ''{"b":'')] ''{"a": 1}{"b":'' () = Inr PNone\<close>
  by (simp add: parse_structured_response_def loads_stub_simps)


section \<open>Properties of the Ollama adapter\<close>

lemma split_lines_no_newline: "CHR ''\<newline>'' \<notin> set a \<Longrightarrow> split_lines a = [a]"
  by (induction a) auto

lemma split_lines_line:
  "CHR ''\<newline>'' \<notin> set a \<Longrightarrow> split_lines (a @ CHR ''\<newline>'' # b) = a # split_lines b"
  by (induction a) auto

lemma drain_lines_no_newline:
  "CHR ''\<newline>'' \<notin> set buffer \<Longrightarrow> drain_lines loads buffer = ([], Inr buffer)"
  by (simp add: drain_lines.simps)

lemma drain_lines_line:
  assumes "CHR ''\<newline>'' \<notin> set a"
  shows "drain_lines loads (a @ CHR ''\<newline>'' # b) =
           (case process_completion loads a of
              Inl e \<Rightarrow> ([], Inl e)
            | Inr None \<Rightarrow> drain_lines loads b
            | Inr (Some c) \<Rightarrow> ((c, None) # fst (drain_lines loads b), snd (drain_lines loads b)))"
proof -
  have tw: "takeWhile (\<lambda>x. x \<noteq> CHR ''\<newline>'') (a @ CHR ''\<newline>'' # b) = a"
    using assms by (induction a) auto
  have dw: "dropWhile (\<lambda>x. x \<noteq> CHR ''\<newline>'') (a @ CHR ''\<newline>'' # b) = CHR ''\<newline>'' # b"
    using assms by (induction a) auto
  show ?thesis
    by (subst drain_lines.simps) (simp add: tw dw Let_def split: option.splits sum.splits)
qed

text \<open>
  Draining a buffer processes its complete lines and leaves the piece after the last
  newline; processing the lines of the buffer followed by more text does the same and
  goes on with what is left.
\<close>

lemma drain_lines_process_lines:
  "process_lines loads (split_lines (s @ rest)) =
     (case snd (drain_lines loads s) of
        Inl e \<Rightarrow> (fst (drain_lines loads s), Raised e)
      | Inr r \<Rightarrow>
          (fst (drain_lines loads s) @ fst (process_lines loads (split_lines (r @ rest))),
           snd (process_lines loads (split_lines (r @ rest)))))"
proof (induction s rule: length_induct)
  case (1 s)
  show ?case
  proof (cases "CHR ''\<newline>'' \<in> set s")
    case False
    then show ?thesis by (simp add: drain_lines_no_newline)
  next
    case True
    then obtain l r where s: "s = l @ CHR ''\<newline>'' # r" and l: "CHR ''\<newline>'' \<notin> set l"
      by (meson split_list_first)
    have "length r < length s" using s by simp
    with 1 have IH: "process_lines loads (split_lines (r @ rest)) =
       (case snd (drain_lines loads r) of
          Inl e \<Rightarrow> (fst (drain_lines loads r), Raised e)
        | Inr r' \<Rightarrow>
            (fst (drain_lines loads r) @ fst (process_lines loads (split_lines (r' @ rest))),
             snd (process_lines loads (split_lines (r' @ rest)))))"
      by blast
    have sr: "s @ rest = l @ CHR ''\<newline>'' # (r @ rest)" using s by simp
    show ?thesis
      unfolding sr
      by (simp add: s split_lines_line [OF l] drain_lines_line [OF l] IH
          split: option.splits sum.splits)
  qed
qed

lemma drain_lines_rest_no_newline:
  "snd (drain_lines loads s) = Inr r \<Longrightarrow> CHR ''\<newline>'' \<notin> set r"
proof (induction s rule: length_induct)
  case (1 s)
  show ?case
  proof (cases "CHR ''\<newline>'' \<in> set s")
    case False
    with 1(2) show ?thesis by (simp add: drain_lines_no_newline)
  next
    case True
    then obtain l r' where s: "s = l @ CHR ''\<newline>'' # r'" and l: "CHR ''\<newline>'' \<notin> set l"
      by (meson split_list_first)
    have "length r' < length s" using s by simp
    moreover have "snd (drain_lines loads r') = Inr r"
      using 1(2) by (auto simp: s drain_lines_line [OF l] split: option.splits sum.splits)
    ultimately show ?thesis using 1(1) by blast
  qed
qed

lemma invoke_ollama_loop_lines:
  "list_all2 (\<lambda>c t. decode c = Inr t) chunks texts \<Longrightarrow> CHR ''\<newline>'' \<notin> set buffer \<Longrightarrow>
   invoke_ollama_loop decode loads buffer chunks None =
     process_lines loads (split_lines (buffer @ concat texts))"
proof (induction chunks texts arbitrary: buffer rule: list_all2_induct)
  case Nil
  then show ?case
    by (simp add: split_lines_no_newline process_completion_def split: option.splits sum.splits)
next
  case (Cons c chunks t texts)
  show ?case
  proof (cases "snd (drain_lines loads (buffer @ t))")
    case (Inl e)
    then show ?thesis
      using Cons.hyps(1) drain_lines_process_lines [of loads "buffer @ t" "concat texts"]
      by (simp add: Let_def)
  next
    case (Inr r)
    from drain_lines_rest_no_newline [OF Inr] Cons.IH [of r]
    have "invoke_ollama_loop decode loads r chunks None =
            process_lines loads (split_lines (r @ concat texts))"
      by simp
    then show ?thesis
      using Cons.hyps(1) Inr drain_lines_process_lines [of loads "buffer @ t" "concat texts"]
      by (simp add: Let_def)
  qed
qed

lemma invoke_ollama_lines:
  "list_all2 (\<lambda>c t. decode c = Inr t) chunks texts \<Longrightarrow>
   invoke_ollama decode loads chunks None = process_lines loads (split_lines (concat texts))"
  using invoke_ollama_loop_lines [of decode chunks texts "[]" loads]
  by (simp add: invoke_ollama_def)

lemma process_completion_delta_iff:
  "(process_completion loads ln = Inr (Some delta)) =
     (ln \<noteq> [] \<and>
      (\<exists>d m. loads ln = Inr (PDict d) \<and> dict_get d (PStr ''message'') = Some (PDict m) \<and>
             dict_get m (PStr ''content'') = Some delta \<and> truthy delta))"
  by (auto simp: process_completion_def split: option.splits pyval.splits sum.splits)

lemma process_completion_raises_iff:
  "(process_completion loads ln = Inl e) =
     (ln \<noteq> [] \<and> loads ln = Inl e \<and> e \<noteq> JSONDecodeError)"
  by (auto simp: process_completion_def split: option.splits pyval.splits sum.splits)

lemma wire_lines_facts:
  "CHR ''\<newline>'' \<notin> set wire_line1" "CHR ''\<newline>'' \<notin> set wire_line2"
  "CHR ''\<newline>'' \<notin> set wire_line_number"
  "wire_line1 \<noteq> []" "wire_line2 \<noteq> []" "wire_line_number \<noteq> []"
  by (simp_all add: wire_line1_def wire_line2_def wire_line_number_def)

lemma wire_payload_ascii: "list_all (\<lambda>b. of_char b < (128 :: nat)) wire_payload"
  by (simp add: wire_payload_def wire_line1_def wire_line2_def)

lemma wire_open_ascii:
  "list_all (\<lambda>b. of_char b < (128 :: nat)) (wire_line1 @ ''\<newline>'' @ wire_line2)"
  by (simp add: wire_line1_def wire_line2_def)

lemma list_all_take_drop:
  "list_all P xs \<Longrightarrow> list_all P (take k xs) \<and> list_all P (drop k xs)"
  by (auto simp: list_all_iff dest: in_set_takeD in_set_dropD)

text \<open>
  C7 (as amended). Ollama wire parsing is chunk-boundary independent: whatever the
  chunks into which the body is cut, as long as each chunk decodes, the adapter yields
  what processing the lines of the whole text yields, line by line and in order, the
  piece after the last newline being processed when the body ends. In particular the
  specification's body, cut at any offset, yields exactly the deltas Hi and there, with
  or without its last newline. A line yields a delta exactly when it is not empty and
  decodes to an object whose \<open>message\<close> is an object whose \<open>content\<close> is truthy, and the
  delta is that content whether or not it is a string; a line raises exactly when
  \<open>json.loads\<close> raises something other than JSONDecodeError on it, and that exception
  ends the stream; every other line is skipped and the stream goes on.
\<close>

theorem ollama_chunk_boundary_independent:
  assumes chunks: "list_all2 (\<lambda>c t. decode c = Inr t) chunks texts"
    and dec: "\<And>bs. list_all (\<lambda>b. of_char b < (128 :: nat)) bs \<Longrightarrow> decode bs = Inr bs"
    and l1: "loads wire_line1 =
               Inr (PDict [(PStr ''message'', PDict [(PStr ''content'', PStr ''Hi'')])])"
    and l2: "loads wire_line2 =
               Inr (PDict [(PStr ''message'', PDict [(PStr ''content'', PStr '' there'')])])"
  shows "invoke_ollama decode loads chunks None =
           process_lines loads (split_lines (concat texts)) \<and>
         invoke_ollama decode loads [take k wire_payload, drop k wire_payload] None =
           ([(PStr ''Hi'', None), (PStr '' there'', None)], Exhausted) \<and>
         invoke_ollama decode loads
             [take k (wire_line1 @ ''\<newline>'' @ wire_line2),
              drop k (wire_line1 @ ''\<newline>'' @ wire_line2)] None =
           ([(PStr ''Hi'', None), (PStr '' there'', None)], Exhausted) \<and>
         (process_completion loads' ln = Inr (Some delta)) =
           (ln \<noteq> [] \<and>
            (\<exists>d m. loads' ln = Inr (PDict d) \<and>
                   dict_get d (PStr ''message'') = Some (PDict m) \<and>
                   dict_get m (PStr ''content'') = Some delta \<and> truthy delta)) \<and>
         (process_completion loads' ln = Inl e) =
           (ln \<noteq> [] \<and> loads' ln = Inl e \<and> e \<noteq> JSONDecodeError)"
proof -
  have p1: "process_completion loads wire_line1 = Inr (Some (PStr ''Hi''))"
    by (simp add: process_completion_def l1 wire_lines_facts py_eq_def)
  have p2: "process_completion loads wire_line2 = Inr (Some (PStr '' there''))"
    by (simp add: process_completion_def l2 wire_lines_facts py_eq_def)
  have p0: "process_completion loads [] = Inr None"
    by (simp add: process_completion_def)
  define w where "w = wire_line1 @ ''\<newline>'' @ wire_line2"
  have closed: "process_lines loads (split_lines wire_payload) =
      ([(PStr ''Hi'', None), (PStr '' there'', None)], Exhausted)"
    by (simp add: wire_payload_def split_lines_line wire_lines_facts p1 p2 p0)
  have unterminated: "process_lines loads (split_lines w) =
      ([(PStr ''Hi'', None), (PStr '' there'', None)], Exhausted)"
    by (simp add: w_def split_lines_line split_lines_no_newline wire_lines_facts p1 p2)
  have d1: "list_all2 (\<lambda>c t. decode c = Inr t)
              [take k wire_payload, drop k wire_payload] [take k wire_payload, drop k wire_payload]"
    using list_all_take_drop [OF wire_payload_ascii, of k] by (simp add: dec)
  have d2: "list_all2 (\<lambda>c t. decode c = Inr t) [take k w, drop k w] [take k w, drop k w]"
    using list_all_take_drop [OF wire_open_ascii, of k] by (simp add: dec w_def)
  have a: "invoke_ollama decode loads [take k wire_payload, drop k wire_payload] None =
             ([(PStr ''Hi'', None), (PStr '' there'', None)], Exhausted)"
    using invoke_ollama_lines [OF d1, of loads] by (simp add: closed)
  have "invoke_ollama decode loads [take k w, drop k w] None =
             ([(PStr ''Hi'', None), (PStr '' there'', None)], Exhausted)"
    using invoke_ollama_lines [OF d2, of loads] by (simp add: unterminated)
  then have b: "invoke_ollama decode loads
             [take k (wire_line1 @ ''\<newline>'' @ wire_line2),
              drop k (wire_line1 @ ''\<newline>'' @ wire_line2)] None =
             ([(PStr ''Hi'', None), (PStr '' there'', None)], Exhausted)"
    unfolding w_def .
  from invoke_ollama_lines [OF chunks, of loads] a b
    process_completion_delta_iff process_completion_raises_iff
  show ?thesis by blast
qed

lemma loads_stub_wire:
  "loads_stub wire_line1 =
     Inr (PDict [(PStr ''message'', PDict [(PStr ''content'', PStr ''Hi'')])])"
  "loads_stub wire_line2 =
     Inr (PDict [(PStr ''message'', PDict [(PStr ''content'', PStr '' there'')])])"
  "loads_stub wire_line_number =
     Inr (PDict [(PStr ''message'', PDict [(PStr ''content'', PInt 5)])])"
  "loads_stub (replicate 4301 (CHR ''1'')) = Inl ValueError"
  by (simp_all add: loads_stub_def wire_line1_def wire_line2_def wire_line_number_def
      list_all_iff)

lemma decode_stub_ascii:
  "list_all (\<lambda>b. of_char b < (128 :: nat)) bs \<Longrightarrow> decode_stub bs = Inr bs"
  by (simp add: decode_stub_def)

theorem ollama_chunk_boundary_independent_witness:
  \<open>take 17 wire_payload = ''{"message":{"cont'' \<and>
   decode_stub (take 17 wire_payload) = Inr (take 17 wire_payload) \<and>
   decode_stub (drop 17 wire_payload) = Inr (drop 17 wire_payload) \<and>
   loads_stub wire_line1 =
     Inr (PDict [(PStr ''message'', PDict [(PStr ''content'', PStr ''Hi'')])]) \<and>
   loads_stub wire_line2 =
     Inr (PDict [(PStr ''message'', PDict [(PStr ''content'', PStr '' there'')])]) \<and>
   invoke_ollama decode_stub loads_stub [take 17 wire_payload, drop 17 wire_payload] None =
     process_lines loads_stub (split_lines wire_payload) \<and>
   invoke_ollama decode_stub loads_stub [take 17 wire_payload, drop 17 wire_payload] None =
     ([(PStr ''Hi'', None), (PStr '' there'', None)], Exhausted)\<close>
proof -
  have t: \<open>take 17 wire_payload = ''{"message":{"cont''\<close>
    by (simp add: wire_payload_def wire_line1_def)
  have d: "decode_stub (take 17 wire_payload) = Inr (take 17 wire_payload)"
    "decode_stub (drop 17 wire_payload) = Inr (drop 17 wire_payload)"
    using list_all_take_drop [OF wire_payload_ascii, of 17]
    by (simp_all add: decode_stub_ascii)
  have c: "list_all2 (\<lambda>c t. decode_stub c = Inr t)
      [take 17 wire_payload, drop 17 wire_payload] [take 17 wire_payload, drop 17 wire_payload]"
    using d by simp
  note inst = ollama_chunk_boundary_independent
         [of decode_stub "[take 17 wire_payload, drop 17 wire_payload]"
             "[take 17 wire_payload, drop 17 wire_payload]" loads_stub 17,
          OF c decode_stub_ascii loads_stub_wire(1) loads_stub_wire(2)]
  have "invoke_ollama decode_stub loads_stub [take 17 wire_payload, drop 17 wire_payload] None =
          process_lines loads_stub (split_lines wire_payload)"
    using inst [THEN conjunct1] by simp
  moreover
  have "invoke_ollama decode_stub loads_stub [take 17 wire_payload, drop 17 wire_payload] None =
          ([(PStr ''Hi'', None), (PStr '' there'', None)], Exhausted)"
    by (rule inst [THEN conjunct2, THEN conjunct1])
  ultimately
  have "invoke_ollama decode_stub loads_stub [take 17 wire_payload, drop 17 wire_payload] None =
          process_lines loads_stub (split_lines wire_payload) \<and>
        invoke_ollama decode_stub loads_stub [take 17 wire_payload, drop 17 wire_payload] None =
          ([(PStr ''Hi'', None), (PStr '' there'', None)], Exhausted)"
    by simp
  with t d loads_stub_wire(1) loads_stub_wire(2) show ?thesis by blast
qed

theorem ollama_yields_number_and_raises:
  "invoke_ollama decode_stub loads_stub [wire_line_number @ ''\<newline>''] None =
     ([(PInt 5, None)], Exhausted) \<and>
   invoke_ollama decode_stub loads_stub [replicate 4301 (CHR ''1'') @ ''\<newline>''] None =
     ([], Raised ValueError)"
proof -
  have n: "list_all2 (\<lambda>c t. decode_stub c = Inr t)
             [wire_line_number @ ''\<newline>''] [wire_line_number @ ''\<newline>'']"
    by (simp add: decode_stub_def wire_line_number_def)
  have "process_completion loads_stub wire_line_number = Inr (Some (PInt 5))"
    by (simp add: process_completion_def loads_stub_wire wire_lines_facts py_eq_def)
  then have a: "invoke_ollama decode_stub loads_stub [wire_line_number @ ''\<newline>''] None =
      ([(PInt 5, None)], Exhausted)"
    using invoke_ollama_lines [OF n, of loads_stub]
    by (simp add: split_lines_line wire_lines_facts process_completion_def)
  have b: "list_all2 (\<lambda>c t. decode_stub c = Inr t)
             [replicate 4301 (CHR ''1'') @ ''\<newline>''] [replicate 4301 (CHR ''1'') @ ''\<newline>'']"
    by (simp add: decode_stub_def list_all_iff)
  have "process_completion loads_stub (replicate 4301 (CHR ''1'')) = Inl ValueError"
    by (simp add: process_completion_def loads_stub_wire)
  then have "invoke_ollama decode_stub loads_stub [replicate 4301 (CHR ''1'') @ ''\<newline>''] None =
      ([], Raised ValueError)"
    using invoke_ollama_lines [OF b, of loads_stub]
    by (simp add: split_lines_line)
  with a show ?thesis by blast
qed

end
